theory Spec2Isabelle
  imports Complex_Main "HOL-Library.Multiset"
begin

section \<open>Python values\<close>

text \<open>
  The extractors of \<^verbatim>\<open>ragcl\<close> work on dynamically typed data: content blocks are
  dictionaries with values of any type, and the completions of the inference service are
  decoded by \<^verbatim>\<open>json.loads\<close> into dictionaries, lists, strings, numbers, booleans
  and \<^verbatim>\<open>None\<close>. \<open>pyval\<close> is that universe. A dictionary is an association
  list in insertion order with pairwise distinct keys. A \<open>char\<close> stands for one Python
  character with a code point below 256; \<open>length\<close> then counts what \<^verbatim>\<open>len\<close>
  counts. Floats are the reals they denote (rounding is not modelled).
\<close>

datatype pyval =
    PNone
  | PBool bool
  | PInt int
  | PFloat real
  | PStr string
  | PList "pyval list"
  | PDict "(pyval \<times> pyval) list"

type_synonym dict = "(pyval \<times> pyval) list"

datatype exn = TypeError | AttributeError | KeyError | ValueError | OverflowError

text \<open>\<^verbatim>\<open>isinstance(x, dict)\<close> and Python's truth value of an object.\<close>

fun is_dict :: "pyval \<Rightarrow> bool" where
  "is_dict (PDict d) = True"
| "is_dict v = False"

fun truthy :: "pyval \<Rightarrow> bool" where
  "truthy PNone = False"
| "truthy (PBool b) = b"
| "truthy (PInt i) = (i \<noteq> 0)"
| "truthy (PFloat r) = (r \<noteq> 0)"
| "truthy (PStr s) = (s \<noteq> [])"
| "truthy (PList xs) = (xs \<noteq> [])"
| "truthy (PDict d) = (d \<noteq> [])"

text \<open>\<^verbatim>\<open>d.get(k, default)\<close> with a string key, and \<^verbatim>\<open>d[k] = v\<close>: an existing key
  keeps its place, a new key goes to the end.\<close>

definition dict_get :: "dict \<Rightarrow> string \<Rightarrow> pyval \<Rightarrow> pyval" where
  "dict_get d k dflt = (case map_of d (PStr k) of Some v \<Rightarrow> v | None \<Rightarrow> dflt)"

fun dict_set :: "pyval \<Rightarrow> pyval \<Rightarrow> dict \<Rightarrow> dict" where
  "dict_set k v [] = [(k, v)]"
| "dict_set k v (p # ps) = (if fst p = k then (k, v) # ps else p # dict_set k v ps)"

text \<open>\<^verbatim>\<open>x[:n]\<close> and iteration (\<^verbatim>\<open>for y in x\<close>): defined on strings and lists (and, for
  iteration, on dictionaries, which yield their keys); a \<^verbatim>\<open>TypeError\<close> elsewhere.\<close>

fun py_slice_to :: "nat \<Rightarrow> pyval \<Rightarrow> exn + pyval" where
  "py_slice_to n (PStr s) = Inr (PStr (take n s))"
| "py_slice_to n (PList xs) = Inr (PList (take n xs))"
| "py_slice_to n v = Inl TypeError"

fun py_iter :: "pyval \<Rightarrow> exn + pyval list" where
  "py_iter (PList xs) = Inr xs"
| "py_iter (PStr s) = Inr (map (\<lambda>c. PStr [c]) s)"
| "py_iter (PDict d) = Inr (map fst d)"
| "py_iter v = Inl TypeError"

text \<open>\<^verbatim>\<open>str(x)\<close>: the identity on strings. The text Python prints for the other
  types is that of the interpreter's \<^verbatim>\<open>repr\<close>, a parameter \<open>repr\<close> here.\<close>

fun py_str :: "(pyval \<Rightarrow> string) \<Rightarrow> pyval \<Rightarrow> string" where
  "py_str repr (PStr s) = s"
| "py_str repr v = repr v"

section \<open>Strings\<close>

text \<open>\<^verbatim>\<open>str.isspace\<close> on one character, which is also the class \<^verbatim>\<open>\s\<close> of the
  \<^verbatim>\<open>re\<close> module on \<^verbatim>\<open>str\<close> patterns; \<^verbatim>\<open>str.strip()\<close>; \<^verbatim>\<open>sep.join(xs)\<close>.\<close>

definition isspace :: "char \<Rightarrow> bool" where
  "isspace c = (of_char c \<in> {9, 10, 11, 12, 13, 28, 29, 30, 31, 32, 133, 160 :: nat})"

definition strip :: "string \<Rightarrow> string" where
  "strip s = rev (dropWhile isspace (rev (dropWhile isspace s)))"

fun join :: "string \<Rightarrow> string list \<Rightarrow> string" where
  "join sep [] = []"
| "join sep [x] = x"
| "join sep (x # y # ys) = x @ sep @ join sep (y # ys)"

text \<open>Decimal digits of a natural number, as an f-string prints an index.\<close>

fun show_nat :: "nat \<Rightarrow> string" where
  "show_nat n = (if n < 10 then [''0123456789'' ! n]
                 else show_nat (n div 10) @ [''0123456789'' ! (n mod 10)])"

declare show_nat.simps [simp del]

section \<open>Table rendering\<close>

text \<open>
  \<^verbatim>\<open>EntityExtractor._format_table_for_llm\<close> (\<^verbatim>\<open>entity_extractor.py\<close>) and
  \<^verbatim>\<open>RAGAnythingEntityExtractor._format_table_data\<close> (\<^verbatim>\<open>raganything_entity_extractor.py\<close>)
  are the same loop with different column bounds:
  \<^verbatim>\<open>
    if not table_body: return "<empty table>"
    for i, row in enumerate(table_body[:10]):
        row_str = " | ".join(str(cell)[:50] for cell in row[:COLS])
        formatted_rows.append(f"<row>{i+1}: {row_str}")
    return "\n".join(formatted_rows)
  \<close>
  with \<^verbatim>\<open>COLS = 10\<close> in the first and \<^verbatim>\<open>COLS = 8\<close> in the second. The two literals
  are CJK text (U+7A7A U+8868 U+683C and U+884C), beyond the 8-bit range of \<open>char\<close>: they
  are written by their UTF-8 bytes.
\<close>

definition empty_table_text :: string where
  "empty_table_text = map char_of [0xE7, 0xA9, 0xBA, 0xE8, 0xA1, 0xA8, 0xE6, 0xA0, 0xBC :: nat]"

definition row_label :: string where
  "row_label = map char_of [0xE8, 0xA1, 0x8C :: nat]"

text \<open>The cells one row contributes: \<^verbatim>\<open>[str(cell)[:50] for cell in row[:cols]]\<close>.\<close>

definition row_cells :: "nat \<Rightarrow> (pyval \<Rightarrow> string) \<Rightarrow> pyval \<Rightarrow> exn + string list" where
  "row_cells cols repr row =
     (case py_slice_to cols row of Inl e \<Rightarrow> Inl e
      | Inr r \<Rightarrow> (case py_iter r of Inl e \<Rightarrow> Inl e
                  | Inr cells \<Rightarrow> Inr (map (\<lambda>cell. take 50 (py_str repr cell)) cells)))"

text \<open>The rows of \<^verbatim>\<open>table_body[:10]\<close>, each cut to its cells; the first row that
  cannot be sliced or iterated raises.\<close>

fun rows_cells :: "nat \<Rightarrow> (pyval \<Rightarrow> string) \<Rightarrow> pyval list \<Rightarrow> exn + string list list" where
  "rows_cells cols repr [] = Inr []"
| "rows_cells cols repr (row # rows) =
     (case row_cells cols repr row of Inl e \<Rightarrow> Inl e
      | Inr cs \<Rightarrow> (case rows_cells cols repr rows of Inl e \<Rightarrow> Inl e
                  | Inr css \<Rightarrow> Inr (cs # css)))"

definition table_cells :: "nat \<Rightarrow> (pyval \<Rightarrow> string) \<Rightarrow> pyval \<Rightarrow> exn + string list list" where
  "table_cells cols repr table_body =
     (case py_slice_to 10 table_body of Inl e \<Rightarrow> Inl e
      | Inr t \<Rightarrow> (case py_iter t of Inl e \<Rightarrow> Inl e
                  | Inr rows \<Rightarrow> rows_cells cols repr rows))"

text \<open>\<^verbatim>\<open>f"<row>{i+1}: {row_str}"\<close> for the rows numbered from \<open>i\<close>.\<close>

fun format_rows :: "nat \<Rightarrow> string list list \<Rightarrow> string list" where
  "format_rows i [] = []"
| "format_rows i (cs # css) =
     (row_label @ show_nat (i + 1) @ '': '' @ join '' | '' cs) # format_rows (Suc i) css"

definition render_table :: "nat \<Rightarrow> (pyval \<Rightarrow> string) \<Rightarrow> pyval \<Rightarrow> exn + string" where
  "render_table cols repr table_body =
     (if \<not> truthy table_body then Inr empty_table_text
      else (case table_cells cols repr table_body of Inl e \<Rightarrow> Inl e
            | Inr css \<Rightarrow> Inr (join ''\<newline>'' (format_rows 0 css))))"

definition format_table_for_llm :: "(pyval \<Rightarrow> string) \<Rightarrow> pyval \<Rightarrow> exn + string" where
  "format_table_for_llm = render_table 10"

definition format_table_data :: "(pyval \<Rightarrow> string) \<Rightarrow> pyval \<Rightarrow> exn + string" where
  "format_table_data = render_table 8"

section \<open>The response recoverer\<close>

subsection \<open>The two regular expressions of \<^verbatim>\<open>entity_extractor.py\<close>\<close>

text \<open>
  \<^verbatim>\<open>re.findall(r'```(?:json)?\s*([\s\S]*?)```', response, re.IGNORECASE)\<close> scans
  from the left for an opening fence; after it an optional \<^verbatim>\<open>json\<close> in any case and
  all white space are consumed, and the group is the text up to the next fence.
  (Backtracking gives nothing else: the characters given back by \<^verbatim>\<open>(?:json)?\<close> or
  \<^verbatim>\<open>\s*\<close> are no backticks, so no closing fence starts earlier.) The scan goes on
  behind the closing fence, or one character on when the attempt fails.
\<close>

definition fence :: string where
  "fence = ''```''"

fun find_fence :: "string \<Rightarrow> (string \<times> string) option" where
  "find_fence [] = None"
| "find_fence (c # cs) =
     (if take 3 (c # cs) = fence then Some ([], drop 3 (c # cs))
      else (case find_fence cs of None \<Rightarrow> None | Some (g, r) \<Rightarrow> Some (c # g, r)))"

fun match_json :: "string \<Rightarrow> bool" where
  "match_json (a # b # c # d # r) =
     ((a = CHR ''j'' \<or> a = CHR ''J'') \<and> (b = CHR ''s'' \<or> b = CHR ''S'') \<and>
      (c = CHR ''o'' \<or> c = CHR ''O'') \<and> (d = CHR ''n'' \<or> d = CHR ''N''))"
| "match_json r = False"

definition skip_json :: "string \<Rightarrow> string" where
  "skip_json r = (if match_json r then drop 4 r else r)"

lemma skip_json_length: "length (skip_json r) \<le> length r"
  by (simp add: skip_json_def)

lemma find_fence_length: "find_fence s = Some (g, r) \<Longrightarrow> length r < length s"
  by (induction s arbitrary: g r) (auto split: if_splits option.splits)

lemma find_fence_rest:
  assumes "find_fence (dropWhile isspace (skip_json r)) = Some (g, rest)"
  shows "length rest < length r"
proof -
  have "length rest < length (dropWhile isspace (skip_json r))"
    using assms by (rule find_fence_length)
  also have "\<dots> \<le> length (skip_json r)"
    by (rule length_dropWhile_le)
  also have "\<dots> \<le> length r"
    by (rule skip_json_length)
  finally show ?thesis .
qed

function findall_code_block :: "string \<Rightarrow> string list" where
  "findall_code_block [] = []"
| "findall_code_block (c # cs) =
     (if take 3 (c # cs) = fence then
        (case find_fence (dropWhile isspace (skip_json (drop 3 (c # cs)))) of
           Some (g, rest) \<Rightarrow> g # findall_code_block rest
         | None \<Rightarrow> findall_code_block cs)
      else findall_code_block cs)"
  by pat_completeness auto
termination
  by (relation "measure length") (auto dest!: find_fence_rest)

text \<open>
  \<^verbatim>\<open>re.findall(r'\{[\s\S]*\}', response)\<close>: the star is greedy and its class holds
  every character, so the one match runs from the first opening brace to the last closing
  brace behind it.
\<close>

definition findall_brace :: "string \<Rightarrow> string list" where
  "findall_brace response =
     (let t = dropWhile (\<lambda>c. c \<noteq> CHR ''{'') response
      in if CHR ''}'' \<in> set t then [rev (dropWhile (\<lambda>c. c \<noteq> CHR ''}'') (rev t))] else [])"

subsection \<open>The two regular expressions of \<^verbatim>\<open>raganything_entity_extractor.py\<close>\<close>

text \<open>
  There the patterns are written \<^verbatim>\<open>r'```(?:json)?\\s*([\\s\\S]*?)```'\<close> and
  \<^verbatim>\<open>r'\\{[\\s\\S]*\\}'\<close>: in a raw string \<^verbatim>\<open>\\\<close> is an escaped backslash of the
  pattern, which matches the backslash character, \<^verbatim>\<open>s*\<close> is a run of the letter s
  (or S, under \<^verbatim>\<open>IGNORECASE\<close>) and \<^verbatim>\<open>[\\s\\S]\<close> is the class of the three
  characters backslash, s and S. So the first pattern asks for a backslash behind the
  opening fence (and the optional \<^verbatim>\<open>json\<close>), then a run of the class that the closing
  fence ends; its group is that run without its leading letters s. The second asks for a
  backslash and an opening brace, a run of the class whose last character is a backslash,
  and a closing brace.
\<close>

definition esc_class :: "char \<Rightarrow> bool" where
  "esc_class c = (c = CHR 0x5C \<or> c = CHR ''s'' \<or> c = CHR ''S'')"

definition letter_s :: "char \<Rightarrow> bool" where
  "letter_s c = (c = CHR ''s'' \<or> c = CHR ''S'')"

function findall_code_block_escaped :: "string \<Rightarrow> string list" where
  "findall_code_block_escaped [] = []"
| "findall_code_block_escaped (c # cs) =
     (if take 3 (c # cs) = fence \<and> take 1 (skip_json (drop 3 (c # cs))) = [CHR 0x5C] \<and>
         take 3 (dropWhile esc_class (drop 1 (skip_json (drop 3 (c # cs))))) = fence
      then dropWhile letter_s (takeWhile esc_class (drop 1 (skip_json (drop 3 (c # cs)))))
           # findall_code_block_escaped
               (drop 3 (dropWhile esc_class (drop 1 (skip_json (drop 3 (c # cs))))))
      else findall_code_block_escaped cs)"
  by pat_completeness auto
termination
proof (relation "measure length", goal_cases)
  case 1
  show ?case by simp
next
  case (2 c cs)
  have "length (dropWhile esc_class (drop 1 (skip_json (drop 3 (c # cs)))))
          \<le> length (drop 1 (skip_json (drop 3 (c # cs))))"
    by (rule length_dropWhile_le)
  also have "\<dots> \<le> length (c # cs)"
    using skip_json_length [of "drop 3 (c # cs)"] by simp
  finally show ?case by simp
next
  case 3
  show ?case by simp
qed

function findall_brace_escaped :: "string \<Rightarrow> string list" where
  "findall_brace_escaped [] = []"
| "findall_brace_escaped (c # cs) =
     (if c = CHR 0x5C \<and> take 1 cs = ''{'' \<and> takeWhile esc_class (drop 1 cs) \<noteq> [] \<and>
         last (takeWhile esc_class (drop 1 cs)) = CHR 0x5C \<and>
         take 1 (dropWhile esc_class (drop 1 cs)) = ''}''
      then (c # ''{'' @ takeWhile esc_class (drop 1 cs) @ ''}'')
           # findall_brace_escaped (drop 1 (dropWhile esc_class (drop 1 cs)))
      else findall_brace_escaped cs)"
  by pat_completeness auto
termination
proof (relation "measure length", goal_cases)
  case 1
  show ?case by simp
next
  case (2 c cs)
  have "length (dropWhile esc_class (drop 1 cs)) \<le> length (drop 1 cs)"
    by (rule length_dropWhile_le)
  then show ?case by simp
next
  case 3
  show ?case by simp
qed

subsection \<open>Trying the candidates\<close>

text \<open>
  \<^verbatim>\<open>json.loads\<close> is the standard library's: the parameter \<open>loads\<close>, with \<open>None\<close>
  for \<^verbatim>\<open>JSONDecodeError\<close>. The loop over the candidates returns the first one that
  decodes; Python's \<^verbatim>\<open>None\<close> is \<open>PNone\<close>.
  \<^verbatim>\<open>
    for candidate in json_candidates:
        try:
            candidate = candidate.strip()
            if candidate:
                parsed = json.loads(candidate)
                return parsed
        except json.JSONDecodeError:
            continue
    return None
  \<close>
\<close>

fun try_candidates :: "(string \<Rightarrow> pyval option) \<Rightarrow> string list \<Rightarrow> pyval" where
  "try_candidates loads [] = PNone"
| "try_candidates loads (candidate # cs) =
     (if strip candidate \<noteq> [] then
        (case loads (strip candidate) of Some parsed \<Rightarrow> parsed
         | None \<Rightarrow> try_candidates loads cs)
      else try_candidates loads cs)"

text \<open>\<^verbatim>\<open>EntityExtractor._parse_llm_response\<close>.\<close>

definition json_candidates :: "string \<Rightarrow> string list" where
  "json_candidates response =
     [strip response] @ findall_code_block response @ findall_brace response"

definition parse_llm_response :: "(string \<Rightarrow> pyval option) \<Rightarrow> string \<Rightarrow> pyval" where
  "parse_llm_response loads response =
     (if response = [] then PNone else try_candidates loads (json_candidates response))"

text \<open>\<^verbatim>\<open>RAGAnythingEntityExtractor._parse_json_response\<close>; it is called with whatever
  \<^verbatim>\<open>_call_llm\<close> returned, a string or \<^verbatim>\<open>None\<close>.\<close>

definition json_candidates_escaped :: "string \<Rightarrow> string list" where
  "json_candidates_escaped response =
     [strip response] @ findall_code_block_escaped response @ findall_brace_escaped response"

definition parse_json_response :: "(string \<Rightarrow> pyval option) \<Rightarrow> string option \<Rightarrow> pyval" where
  "parse_json_response loads response =
     (case response of None \<Rightarrow> PNone
      | Some r \<Rightarrow> if r = [] then PNone else try_candidates loads (json_candidates_escaped r))"

section \<open>A JSON decoder\<close>

text \<open>
  The theorems below hold for every decoder \<open>loads\<close>. To run the extractors on concrete
  completions, \<open>json_loads\<close> decodes JSON texts the way \<^verbatim>\<open>json.loads\<close> does: white
  space is blank, tab, line feed and carriage return; a value is a string, an object, an
  array, \<^verbatim>\<open>null\<close>, \<^verbatim>\<open>true\<close>, \<^verbatim>\<open>false\<close> or a number; anything behind the value
  but white space is an error; a key given twice keeps its first place and its last value.
  Not covered (the result is \<open>None\<close>): the literals \<^verbatim>\<open>NaN\<close> and \<^verbatim>\<open>Infinity\<close>, and
  \<^verbatim>\<open>\u\<close> escapes of code points from 256 on. The recursion runs on fuel,
  \<open>2 * n + 2\<close> for a text of \<open>n\<close> characters; the decoder is used on the texts
  of the examples only.
\<close>

definition json_space :: "char \<Rightarrow> bool" where
  "json_space c = (c = CHR '' '' \<or> c = CHR 0x09 \<or> c = CHR 0x0A \<or> c = CHR 0x0D)"

definition skip_ws :: "string \<Rightarrow> string" where
  "skip_ws = dropWhile json_space"

definition is_digit :: "char \<Rightarrow> bool" where
  "is_digit c = (48 \<le> (of_char c :: nat) \<and> (of_char c :: nat) \<le> 57)"

definition digits_val :: "string \<Rightarrow> nat" where
  "digits_val ds = foldl (\<lambda>a c. 10 * a + (of_char c - 48)) 0 ds"

definition hex_val :: "char \<Rightarrow> nat option" where
  "hex_val c =
     (let n = (of_char c :: nat)
      in if 48 \<le> n \<and> n \<le> 57 then Some (n - 48)
         else if 65 \<le> n \<and> n \<le> 70 then Some (n - 55)
         else if 97 \<le> n \<and> n \<le> 102 then Some (n - 87)
         else None)"

definition unescape :: "char \<Rightarrow> char option" where
  "unescape e =
     (if e = CHR 0x22 \<or> e = CHR 0x5C \<or> e = CHR ''/'' then Some e
      else if e = CHR ''b'' then Some (CHR 0x08)
      else if e = CHR ''f'' then Some (CHR 0x0C)
      else if e = CHR ''n'' then Some (CHR 0x0A)
      else if e = CHR ''r'' then Some (CHR 0x0D)
      else if e = CHR ''t'' then Some (CHR 0x09)
      else None)"

definition hex4 :: "string \<Rightarrow> char option" where
  "hex4 hs =
     (case map hex_val hs of
        [Some a, Some b, Some c, Some d] \<Rightarrow>
          (if a = 0 \<and> b = 0 then Some (char_of (16 * c + d)) else None)
      | _ \<Rightarrow> None)"

text \<open>The characters of a string behind its opening quote, up to the closing one.\<close>

function scan_string :: "string \<Rightarrow> (string \<times> string) option" where
  "scan_string [] = None"
| "scan_string (c # cs) =
     (if c = CHR 0x22 then Some ([], cs)
      else if c = CHR 0x5C then
        (if take 1 cs = ''u'' then
           (case hex4 (take 4 (drop 1 cs)) of None \<Rightarrow> None
            | Some ch \<Rightarrow> (case scan_string (drop 5 cs) of None \<Rightarrow> None
                          | Some (str, r) \<Rightarrow> Some (ch # str, r)))
         else (case cs of [] \<Rightarrow> None
               | e # cs' \<Rightarrow> (case unescape e of None \<Rightarrow> None
                   | Some ch \<Rightarrow> (case scan_string cs' of None \<Rightarrow> None
                                 | Some (str, r) \<Rightarrow> Some (ch # str, r)))))
      else if (of_char c :: nat) < 32 then None
      else (case scan_string cs of None \<Rightarrow> None | Some (str, r) \<Rightarrow> Some (c # str, r)))"
  by pat_completeness auto
termination
  by (relation "measure length") auto

definition scan_number :: "string \<Rightarrow> (pyval \<times> string) option" where
  "scan_number s =
     (let neg = (take 1 s = ''-'');
          r0 = (if neg then drop 1 s else s);
          ints = (if take 1 r0 = ''0'' then ''0'' else takeWhile is_digit r0);
          r1 = drop (length ints) r0;
          has_frac = (take 1 r1 = ''.'' \<and> takeWhile is_digit (drop 1 r1) \<noteq> []);
          frac = (if has_frac then takeWhile is_digit (drop 1 r1) else []);
          r2 = (if has_frac then drop (1 + length frac) r1 else r1);
          r3 = (if take 1 (drop 1 r2) = ''+'' \<or> take 1 (drop 1 r2) = ''-''
                then drop 2 r2 else drop 1 r2);
          has_exp = ((take 1 r2 = ''e'' \<or> take 1 r2 = ''E'') \<and> takeWhile is_digit r3 \<noteq> []);
          ex = (if has_exp then takeWhile is_digit r3 else []);
          r4 = (if has_exp then drop (length ex) r3 else r2);
          mant = real (digits_val ints) + real (digits_val frac) / 10 ^ length frac;
          scaled = (if has_exp \<and> take 1 (drop 1 r2) = ''-''
                    then mant / 10 ^ digits_val ex else mant * 10 ^ digits_val ex)
      in if ints = [] then None
         else if has_frac \<or> has_exp then Some (PFloat (if neg then - scaled else scaled), r4)
         else Some (PInt (if neg then - int (digits_val ints) else int (digits_val ints)), r4))"

text \<open>\<^verbatim>\<open>dict(pairs)\<close>.\<close>

definition dict_of_pairs :: "(pyval \<times> pyval) list \<Rightarrow> dict" where
  "dict_of_pairs ps = foldl (\<lambda>d (k, v). dict_set k v d) [] ps"

fun parse_value :: "nat \<Rightarrow> string \<Rightarrow> (pyval \<times> string) option"
and parse_array :: "nat \<Rightarrow> string \<Rightarrow> (pyval list \<times> string) option"
and parse_object :: "nat \<Rightarrow> string \<Rightarrow> ((pyval \<times> pyval) list \<times> string) option" where
  "parse_value 0 s = None"
| "parse_value (Suc n) s =
     (if take 1 s = [CHR 0x22] then
        (case scan_string (drop 1 s) of None \<Rightarrow> None | Some (str, r) \<Rightarrow> Some (PStr str, r))
      else if take 1 s = ''{'' then
        (if take 1 (skip_ws (drop 1 s)) = ''}'' then Some (PDict [], drop 1 (skip_ws (drop 1 s)))
         else (case parse_object n (skip_ws (drop 1 s)) of None \<Rightarrow> None
               | Some (ps, r) \<Rightarrow> Some (PDict (dict_of_pairs ps), r)))
      else if take 1 s = ''['' then
        (if take 1 (skip_ws (drop 1 s)) = '']'' then Some (PList [], drop 1 (skip_ws (drop 1 s)))
         else (case parse_array n (skip_ws (drop 1 s)) of None \<Rightarrow> None
               | Some (vs, r) \<Rightarrow> Some (PList vs, r)))
      else if take 4 s = ''null'' then Some (PNone, drop 4 s)
      else if take 4 s = ''true'' then Some (PBool True, drop 4 s)
      else if take 5 s = ''false'' then Some (PBool False, drop 5 s)
      else scan_number s)"
| "parse_array 0 s = None"
| "parse_array (Suc n) s =
     (case parse_value n s of None \<Rightarrow> None
      | Some (v, r) \<Rightarrow>
          (if take 1 (skip_ws r) = '']'' then Some ([v], drop 1 (skip_ws r))
           else if take 1 (skip_ws r) = '','' then
             (case parse_array n (skip_ws (drop 1 (skip_ws r))) of None \<Rightarrow> None
              | Some (vs, r') \<Rightarrow> Some (v # vs, r'))
           else None))"
| "parse_object 0 s = None"
| "parse_object (Suc n) s =
     (if take 1 s \<noteq> [CHR 0x22] then None
      else (case scan_string (drop 1 s) of None \<Rightarrow> None
        | Some (key, r) \<Rightarrow>
            (if take 1 (skip_ws r) \<noteq> '':'' then None
             else (case parse_value n (skip_ws (drop 1 (skip_ws r))) of None \<Rightarrow> None
               | Some (v, r') \<Rightarrow>
                   (if take 1 (skip_ws r') = ''}'' then
                      Some ([(PStr key, v)], drop 1 (skip_ws r'))
                    else if take 1 (skip_ws r') = '','' then
                      (case parse_object n (skip_ws (drop 1 (skip_ws r'))) of None \<Rightarrow> None
                       | Some (ps, r'') \<Rightarrow> Some ((PStr key, v) # ps, r''))
                    else None)))))"

definition json_loads :: "string \<Rightarrow> pyval option" where
  "json_loads s =
     (case parse_value (2 * length s + 2) (skip_ws s) of None \<Rightarrow> None
      | Some (v, r) \<Rightarrow> if skip_ws r = [] then Some v else None)"

section \<open>The content list in memory\<close>

text \<open>
  \<^verbatim>\<open>EntityExtractor.extract_entities_from_content_list\<close> writes a key into the
  dictionaries of the list it is given, and the merger works on copies of them. To tell a
  copy from the original the dictionaries of the content list live in a store: a \<open>heap\<close>
  is the list of the dictionary objects, an address is a position in it, and an element
  of the content list is a reference to a dictionary object or a value that is no
  dictionary (for \<open>Val v\<close>, \<^verbatim>\<open>isinstance(block, dict)\<close> is false).
\<close>

type_synonym addr = nat

type_synonym heap = "dict list"

datatype elem = Ref addr | Val pyval

text \<open>\<^verbatim>\<open>block.copy()\<close>: a new object with the same items.\<close>

definition copy_block :: "heap \<Rightarrow> addr \<Rightarrow> addr \<times> heap" where
  "copy_block h a = (length h, h @ [h ! a])"

text \<open>A content list of fresh objects for a list of values: every dictionary of the
  list becomes an object of its own.\<close>

fun alloc :: "heap \<Rightarrow> pyval list \<Rightarrow> elem list \<times> heap" where
  "alloc h [] = ([], h)"
| "alloc h (PDict d # vs) = (case alloc (h @ [d]) vs of (es, h') \<Rightarrow> (Ref (length h) # es, h'))"
| "alloc h (v # vs) = (case alloc h vs of (es, h') \<Rightarrow> (Val v # es, h'))"

section \<open>The merger\<close>

text \<open>\<^verbatim>\<open>x.strip()\<close> on a value: only strings have the method.\<close>

fun py_strip :: "pyval \<Rightarrow> exn + string" where
  "py_strip (PStr s) = Inr (strip s)"
| "py_strip v = Inl AttributeError"

text \<open>
  The branch of \<^verbatim>\<open>EntityExtractor._merge_text_blocks\<close> that folds a block into the
  current one:
  \<^verbatim>\<open>
    current_block['text'] += f"\n{text}"
    current_block['merged_blocks'] = current_block.get('merged_blocks', []) + [block.get('block_index', -1)]
  \<close>
  The first statement raises \<^verbatim>\<open>KeyError\<close> when the current block has no text. The
  current block is a copy of a block whose text passed \<^verbatim>\<open>.strip()\<close>, so its text is a
  string when it has one; the last case of the first \<open>case\<close> is never reached from
  \<open>merge_text_blocks\<close>. The second raises when \<^verbatim>\<open>merged_blocks\<close> is no list.
\<close>

definition absorb :: "heap \<Rightarrow> addr \<Rightarrow> addr \<Rightarrow> string \<Rightarrow> (exn + unit) \<times> heap" where
  "absorb h cur b text =
     (case map_of (h ! cur) (PStr ''text'') of
        None \<Rightarrow> (Inl KeyError, h)
      | Some (PStr old) \<Rightarrow>
          (let h1 = h[cur := dict_set (PStr ''text'') (PStr (old @ ''\<newline>'' @ text)) (h ! cur)]
           in (case dict_get (h1 ! cur) ''merged_blocks'' (PList []) of
                 PList ms \<Rightarrow>
                   (Inr (),
                    h1[cur := dict_set (PStr ''merged_blocks'')
                                (PList (ms @ [dict_get (h1 ! b) ''block_index'' (PInt (- 1))]))
                                (h1 ! cur)])
               | _ \<Rightarrow> (Inl TypeError, h1)))
      | Some _ \<Rightarrow> (Inl TypeError, h))"

text \<open>
  The loop of \<^verbatim>\<open>_merge_text_blocks\<close>, with \<^verbatim>\<open>current_block\<close> and
  \<^verbatim>\<open>merged_blocks\<close> as arguments:
  \<^verbatim>\<open>
    for block in text_blocks:
        text = block.get('text', '').strip()
        if len(text) < 200 and current_block is not None:
            (fold the block into current_block)
        else:
            if current_block is not None:
                merged_blocks.append(current_block)
            current_block = block.copy()
    if current_block is not None:
        merged_blocks.append(current_block)
    return merged_blocks
  \<close>
\<close>

fun flush :: "addr option \<Rightarrow> addr list \<Rightarrow> addr list" where
  "flush None merged_blocks = merged_blocks"
| "flush (Some c) merged_blocks = merged_blocks @ [c]"

fun merge_loop :: "heap \<Rightarrow> addr list \<Rightarrow> addr option \<Rightarrow> addr list \<Rightarrow> (exn + addr list) \<times> heap" where
  "merge_loop h [] current_block merged_blocks = (Inr (flush current_block merged_blocks), h)"
| "merge_loop h (block # blocks) current_block merged_blocks =
     (case py_strip (dict_get (h ! block) ''text'' (PStr [])) of
        Inl e \<Rightarrow> (Inl e, h)
      | Inr text \<Rightarrow>
          (if length text < 200 \<and> current_block \<noteq> None then
             (case absorb h (the current_block) block text of
                (Inl e, h') \<Rightarrow> (Inl e, h')
              | (Inr u, h') \<Rightarrow> merge_loop h' blocks current_block merged_blocks)
           else
             (case copy_block h block of
                (c, h') \<Rightarrow> merge_loop h' blocks (Some c) (flush current_block merged_blocks))))"

definition merge_text_blocks :: "heap \<Rightarrow> addr list \<Rightarrow> (exn + addr list) \<times> heap" where
  "merge_text_blocks h text_blocks =
     (if text_blocks = [] then (Inr [], h) else merge_loop h text_blocks None [])"

section \<open>The inference service\<close>

text \<open>
  A request is one of the prompt templates with the values put into it; the text sent is
  the template formatted with them. The first four templates are those of
  \<^verbatim>\<open>EntityExtractor\<close> (text, table, document structure, relationships), the last three
  those of \<^verbatim>\<open>RAGAnythingEntityExtractor\<close> (generic text, table, image).
\<close>

datatype prompt =
    TextEntityExtraction string
  | TableEntityExtraction pyval string
  | DocumentStructureAnalysis "pyval list"
  | RelationshipExtraction "pyval list"
  | GenericTextExtraction string
  | TablePrompt string pyval pyval string pyval
  | VisionPrompt string pyval pyval pyval

text \<open>
  What the extractors take from outside: the chat completion (given the requests made so
  far in the run and the new one, the answer's text, or \<open>None\<close> when the call fails or
  has no content), \<^verbatim>\<open>json.loads\<close>, the interpreter's text for a value that is no
  string, and the text \<^verbatim>\<open>str(e)\<close> of an exception.
\<close>

record env =
  completion :: "prompt list \<Rightarrow> prompt \<Rightarrow> string option"
  json_decode :: "string \<Rightarrow> pyval option"
  py_repr :: "pyval \<Rightarrow> string"
  exn_text :: "exn \<Rightarrow> string"

section \<open>\<^verbatim>\<open>EntityExtractor\<close>\<close>

text \<open>
  \<^verbatim>\<open>_call_llm_for_extraction\<close>: the completion is decoded when it is a non-empty
  string; every failure gives \<^verbatim>\<open>None\<close>. The request is added to the requests made so far.
\<close>

definition call_llm_for_extraction :: "env \<Rightarrow> prompt list \<Rightarrow> prompt \<Rightarrow> pyval \<times> prompt list" where
  "call_llm_for_extraction ev reqs p =
     (case completion ev reqs p of
        None \<Rightarrow> (PNone, reqs @ [p])
      | Some response \<Rightarrow>
          (if response \<noteq> [] then (parse_llm_response (json_decode ev) response, reqs @ [p])
           else (PNone, reqs @ [p])))"

text \<open>
  The loop \<^verbatim>\<open>for entity in xs: entity[k1] = v1; ...\<close> followed by
  \<^verbatim>\<open>all_entities.extend(xs)\<close>: it goes through when \<open>xs\<close> can be iterated and all its
  elements are dictionaries (an empty string or dictionary adds nothing); otherwise an
  item assignment or the iteration raises \<^verbatim>\<open>TypeError\<close>, and nothing is added.
\<close>

fun set_keys :: "(string \<times> pyval) list \<Rightarrow> pyval \<Rightarrow> pyval" where
  "set_keys kvs (PDict d) = PDict (foldl (\<lambda>d' (k, v). dict_set (PStr k) v d') d kvs)"
| "set_keys kvs v = v"

definition annotate :: "(string \<times> pyval) list \<Rightarrow> pyval \<Rightarrow> exn + pyval list" where
  "annotate kvs xs =
     (case py_iter xs of Inl e \<Rightarrow> Inl e
      | Inr es \<Rightarrow> if list_all is_dict es then Inr (map (set_keys kvs) es) else Inl TypeError)"

text \<open>
  What one answer adds to \<^verbatim>\<open>all_entities\<close>, inside the \<^verbatim>\<open>try\<close> of the loops:
  \<^verbatim>\<open>
    if entities_result and 'entities' in entities_result:
        for entity in entities_result['entities']:
            entity['source_block'] = block.get('block_index', -1)
            ...
        all_entities.extend(entities_result['entities'])
  \<close>
  Only a dictionary with the key gets to the loop: any other answer is false, lacks the
  member, or raises \<^verbatim>\<open>TypeError\<close> at the membership test or the subscript, which the
  \<^verbatim>\<open>except\<close> of the loop catches.
\<close>

definition found_entities :: "string \<Rightarrow> (string \<times> pyval) list \<Rightarrow> pyval \<Rightarrow> pyval list" where
  "found_entities key kvs result =
     (case result of
        PDict d \<Rightarrow>
          (case map_of d (PStr key) of None \<Rightarrow> []
           | Some xs \<Rightarrow> (case annotate kvs xs of Inl e \<Rightarrow> [] | Inr es \<Rightarrow> es))
      | _ \<Rightarrow> [])"

text \<open>The loop of \<^verbatim>\<open>_extract_text_entities\<close> over the merged blocks.\<close>

fun text_entities_loop :: "env \<Rightarrow> heap \<Rightarrow> addr list \<Rightarrow> prompt list \<Rightarrow> (exn + pyval list) \<times> prompt list" where
  "text_entities_loop ev h [] reqs = (Inr [], reqs)"
| "text_entities_loop ev h (block # blocks) reqs =
     (case py_strip (dict_get (h ! block) ''text'' (PStr [])) of
        Inl e \<Rightarrow> (Inl e, reqs)
      | Inr text_content \<Rightarrow>
          (if length text_content < 10 then text_entities_loop ev h blocks reqs
           else
             (case call_llm_for_extraction ev reqs (TextEntityExtraction text_content) of
                (entities_result, reqs1) \<Rightarrow>
                  (case text_entities_loop ev h blocks reqs1 of
                     (Inl e, reqs2) \<Rightarrow> (Inl e, reqs2)
                   | (Inr rest, reqs2) \<Rightarrow>
                       (Inr (found_entities ''entities''
                               [(''source_block'', dict_get (h ! block) ''block_index'' (PInt (- 1))),
                                (''source_page'', dict_get (h ! block) ''page_idx'' (PInt 0)),
                                (''source_type'', PStr ''text'')]
                               entities_result @ rest), reqs2)))))"

text \<open>\<^verbatim>\<open>_extract_text_entities\<close>; the value is the list under the key
  \<^verbatim>\<open>entities\<close> of the dictionary it returns.\<close>

definition extract_text_entities :: "env \<Rightarrow> heap \<Rightarrow> addr list \<Rightarrow> prompt list \<Rightarrow> (exn + pyval list) \<times> heap \<times> prompt list" where
  "extract_text_entities ev h text_blocks reqs =
     (case merge_text_blocks h text_blocks of
        (Inl e, h') \<Rightarrow> (Inl e, h', reqs)
      | (Inr processed_blocks, h') \<Rightarrow>
          (case text_entities_loop ev h' processed_blocks reqs of
             (r, reqs') \<Rightarrow> (r, h', reqs')))"

text \<open>The default caption U+672A U+547D U+540D U+8868 U+683C, in UTF-8.\<close>

definition unnamed_table :: string where
  "unnamed_table = map char_of
     [0xE6, 0x9C, 0xAA, 0xE5, 0x91, 0xBD, 0xE5, 0x90, 0x8D, 0xE8, 0xA1, 0xA8, 0xE6, 0xA0, 0xBC :: nat]"

text \<open>The loop of \<^verbatim>\<open>_extract_table_entities\<close>: everything that can raise is inside
  its \<^verbatim>\<open>try\<close>, and a table that raises is passed over.\<close>

fun table_entities_loop :: "env \<Rightarrow> heap \<Rightarrow> addr list \<Rightarrow> prompt list \<Rightarrow> pyval list \<times> prompt list" where
  "table_entities_loop ev h [] reqs = ([], reqs)"
| "table_entities_loop ev h (block # blocks) reqs =
     (if \<not> truthy (dict_get (h ! block) ''table_body'' (PList [])) then
        table_entities_loop ev h blocks reqs
      else
        (case format_table_for_llm (py_repr ev) (dict_get (h ! block) ''table_body'' (PList [])) of
           Inl e \<Rightarrow> table_entities_loop ev h blocks reqs
         | Inr table_data \<Rightarrow>
             (case call_llm_for_extraction ev reqs
                     (TableEntityExtraction
                        (dict_get (h ! block) ''table_caption'' (PStr unnamed_table)) table_data) of
                (table_result, reqs1) \<Rightarrow>
                  (case table_entities_loop ev h blocks reqs1 of
                     (rest, reqs2) \<Rightarrow>
                       (found_entities ''extracted_entities''
                          [(''source_block'', dict_get (h ! block) ''block_index'' (PInt (- 1))),
                           (''source_page'', dict_get (h ! block) ''page_idx'' (PInt 0)),
                           (''source_type'', PStr ''table''),
                           (''source_caption'',
                            dict_get (h ! block) ''table_caption'' (PStr unnamed_table))]
                          table_result @ rest, reqs2)))))"

text \<open>
  \<^verbatim>\<open>_analyze_document_structure\<close>: a preview of the dictionaries among the first ten
  elements, one request, and \<^verbatim>\<open>doc_analysis or {}\<close>.
\<close>

fun structure_info :: "(pyval \<Rightarrow> string) \<Rightarrow> heap \<Rightarrow> elem list \<Rightarrow> pyval list" where
  "structure_info repr h [] = []"
| "structure_info repr h (Ref a # blocks) =
     PDict [(PStr ''type'', dict_get (h ! a) ''type'' (PStr ''unknown'')),
            (PStr ''text_preview'',
             PStr (take 100 (py_str repr
               (dict_get (h ! a) ''text'' (dict_get (h ! a) ''table_caption'' (PStr [])))))),
            (PStr ''page'', dict_get (h ! a) ''page_idx'' (PInt 0))]
     # structure_info repr h blocks"
| "structure_info repr h (Val v # blocks) = structure_info repr h blocks"

definition analyze_document_structure :: "env \<Rightarrow> heap \<Rightarrow> elem list \<Rightarrow> prompt list \<Rightarrow> pyval \<times> prompt list" where
  "analyze_document_structure ev h content_list reqs =
     (case call_llm_for_extraction ev reqs
             (DocumentStructureAnalysis (structure_info (py_repr ev) h (take 10 content_list))) of
        (doc_analysis, reqs') \<Rightarrow> (if truthy doc_analysis then doc_analysis else PDict [], reqs'))"

text \<open>
  \<^verbatim>\<open>_extract_entity_relationships\<close>: the names of the first twenty entities and one
  request. The names are read outside the \<^verbatim>\<open>try\<close> (\<^verbatim>\<open>entity.get\<close> raises on an
  entity that is no dictionary); the value returned is whatever the answer has under
  \<^verbatim>\<open>relationships\<close>.
\<close>

fun entity_names :: "pyval list \<Rightarrow> exn + pyval list" where
  "entity_names [] = Inr []"
| "entity_names (PDict d # es) =
     (case entity_names es of Inl e \<Rightarrow> Inl e
      | Inr ns \<Rightarrow> Inr (dict_get d ''name'' (PStr []) # ns))"
| "entity_names (v # es) = Inl AttributeError"

definition extract_entity_relationships :: "env \<Rightarrow> pyval list \<Rightarrow> prompt list \<Rightarrow> (exn + pyval) \<times> prompt list" where
  "extract_entity_relationships ev ents reqs =
     (if length ents < 2 then (Inr (PList []), reqs)
      else (case entity_names (take 20 ents) of
              Inl e \<Rightarrow> (Inl e, reqs)
            | Inr names \<Rightarrow>
                (case call_llm_for_extraction ev reqs (RelationshipExtraction names) of
                   (relationships_result, reqs') \<Rightarrow>
                     (Inr (case relationships_result of
                             PDict d \<Rightarrow> (if d = [] then PList []
                                         else dict_get d ''relationships'' (PList []))
                           | _ \<Rightarrow> PList []), reqs'))))"

text \<open>
  The result of a run, a dictionary with four keys in the source. \<open>statistics\<close> is
  kept as the dictionary it is; the failure result has \<^verbatim>\<open>{'error': str(e)}\<close> there.
\<close>

record extraction_result =
  entities :: "pyval list"
  relationships :: "pyval list"
  document_analysis :: pyval
  statistics :: dict

definition error_result :: "env \<Rightarrow> exn \<Rightarrow> extraction_result" where
  "error_result ev e =
     \<lparr>entities = [], relationships = [], document_analysis = PDict [],
      statistics = [(PStr ''error'', PStr (exn_text ev e))]\<rparr>"

text \<open>
  The first loop of \<^verbatim>\<open>extract_entities_from_content_list\<close>:
  \<^verbatim>\<open>
    for i, block in enumerate(content_list):
        if not isinstance(block, dict):
            continue
        content_type = block.get('type', 'unknown')
        block['block_index'] = i
        if content_type == 'text':
            text_blocks.append(block)
        elif content_type == 'table':
            table_blocks.append(block)
  \<close>
  The lists hold the objects themselves, here their addresses.
\<close>

fun classify :: "heap \<Rightarrow> nat \<Rightarrow> elem list \<Rightarrow> addr list \<times> addr list \<times> heap" where
  "classify h i [] = ([], [], h)"
| "classify h i (Val v # blocks) = classify h (Suc i) blocks"
| "classify h i (Ref a # blocks) =
     (case classify (h[a := dict_set (PStr ''block_index'') (PInt (int i)) (h ! a)]) (Suc i) blocks of
        (text_blocks, table_blocks, h') \<Rightarrow>
          (if dict_get (h ! a) ''type'' (PStr ''unknown'') = PStr ''text''
           then (a # text_blocks, table_blocks, h')
           else if dict_get (h ! a) ''type'' (PStr ''unknown'') = PStr ''table''
           then (text_blocks, a # table_blocks, h')
           else (text_blocks, table_blocks, h')))"

text \<open>
  \<^verbatim>\<open>EntityExtractor.extract_entities_from_content_list\<close>. Nothing in it catches an
  exception: one raised by the merger, by the text loop or by
  \<^verbatim>\<open>all_relationships.extend(relationships)\<close> (when the answer's
  \<^verbatim>\<open>relationships\<close> cannot be iterated) leaves the function. The heap and the
  requests made are returned in every case.
\<close>

definition extract_entities_from_content_list ::
  "env \<Rightarrow> heap \<Rightarrow> elem list \<Rightarrow> bool \<Rightarrow> prompt list \<Rightarrow> (exn + extraction_result) \<times> heap \<times> prompt list" where
  "extract_entities_from_content_list ev h content_list extract_relations reqs =
     (case classify h 0 content_list of
        (text_blocks, table_blocks, h1) \<Rightarrow>
     (case (if text_blocks \<noteq> [] then extract_text_entities ev h1 text_blocks reqs
            else (Inr [], h1, reqs)) of
        (Inl e, h2, reqs1) \<Rightarrow> (Inl e, h2, reqs1)
      | (Inr text_entities, h2, reqs1) \<Rightarrow>
     (case table_entities_loop ev h2 table_blocks reqs1 of
        (table_entities, reqs2) \<Rightarrow>
     (case analyze_document_structure ev h2 content_list reqs2 of
        (doc_analysis, reqs3) \<Rightarrow>
     (case (if extract_relations \<and> length (text_entities @ table_entities) > 1
            then extract_entity_relationships ev (text_entities @ table_entities) reqs3
            else (Inr (PList []), reqs3)) of
        (Inl e, reqs4) \<Rightarrow> (Inl e, h2, reqs4)
      | (Inr found, reqs4) \<Rightarrow>
     (case py_iter found of
        Inl e \<Rightarrow> (Inl e, h2, reqs4)
      | Inr all_relationships \<Rightarrow>
          (Inr \<lparr>entities = text_entities @ table_entities,
                relationships = all_relationships,
                document_analysis = doc_analysis,
                statistics =
                  [(PStr ''total_entities'', PInt (int (length (text_entities @ table_entities)))),
                   (PStr ''total_relationships'', PInt (int (length all_relationships))),
                   (PStr ''text_blocks_processed'', PInt (int (length text_blocks))),
                   (PStr ''table_blocks_processed'', PInt (int (length table_blocks)))]\<rparr>,
           h2, reqs4)))))))"

text \<open>\<^verbatim>\<open>EntityExtractor.extract_entities_sync\<close>: the run with relations, and the
  failure result for any exception.\<close>

definition extract_entities_sync ::
  "env \<Rightarrow> heap \<Rightarrow> elem list \<Rightarrow> prompt list \<Rightarrow> extraction_result \<times> heap \<times> prompt list" where
  "extract_entities_sync ev h content_list reqs =
     (case extract_entities_from_content_list ev h content_list True reqs of
        (Inl e, h', reqs') \<Rightarrow> (error_result ev e, h', reqs')
      | (Inr r, h', reqs') \<Rightarrow> (r, h', reqs'))"

section \<open>\<^verbatim>\<open>RAGAnythingEntityExtractor\<close>\<close>

text \<open>This extractor only reads the content list: it works on the values.
  \<^verbatim>\<open>_call_llm\<close> is the completion, and the request is added to the requests made.\<close>

definition call_llm :: "env \<Rightarrow> prompt list \<Rightarrow> prompt \<Rightarrow> pyval \<times> prompt list" where
  "call_llm ev reqs p = (parse_json_response (json_decode ev) (completion ev reqs p), reqs @ [p])"

text \<open>\<^verbatim>\<open>_process_text_content\<close>.\<close>

definition process_text_content :: "env \<Rightarrow> dict \<Rightarrow> nat \<Rightarrow> prompt list \<Rightarrow> (exn + pyval) \<times> prompt list" where
  "process_text_content ev item index reqs =
     (case py_strip (dict_get item ''text'' (PStr [])) of
        Inl e \<Rightarrow> (Inl e, reqs)
      | Inr text \<Rightarrow>
          (if length text < 10 then (Inr PNone, reqs)
           else (case call_llm ev reqs (GenericTextExtraction (take 2000 text)) of
                   (result, reqs') \<Rightarrow> (Inr result, reqs'))))"

text \<open>
  The end of \<^verbatim>\<open>_process_table_content\<close> and \<^verbatim>\<open>_process_image_content\<close>:
  \<^verbatim>\<open>
    if result and 'entity_info' in result:
        entity_info = result['entity_info']
        entity = {"name": entity_info.get('entity_name', entity_name), ...}
        return {"entities": [entity], "relationships": [], "content_analysis": result}
    return result
  \<close>
  The membership test holds for a dictionary with the key, a list with the string as an
  element and a string with it as a part, and raises on a number; the subscript then
  raises on a list or string, and \<^verbatim>\<open>.get\<close> on an \<^verbatim>\<open>entity_info\<close> that is no
  dictionary.
\<close>

fun is_infix :: "string \<Rightarrow> string \<Rightarrow> bool" where
  "is_infix k [] = (k = [])"
| "is_infix k (c # cs) = (take (length k) (c # cs) = k \<or> is_infix k cs)"

fun modal_result :: "string \<Rightarrow> string \<Rightarrow> pyval \<Rightarrow> exn + pyval" where
  "modal_result entity_name entity_type (PDict d) =
     (case map_of d (PStr ''entity_info'') of
        None \<Rightarrow> Inr (PDict d)
      | Some (PDict entity_info) \<Rightarrow>
          Inr (PDict
            [(PStr ''entities'',
              PList [PDict
                [(PStr ''name'', dict_get entity_info ''entity_name'' (PStr entity_name)),
                 (PStr ''type'', dict_get entity_info ''entity_type'' (PStr entity_type)),
                 (PStr ''description'', dict_get d ''detailed_description'' (PStr [])),
                 (PStr ''summary'', dict_get entity_info ''summary'' (PStr [])),
                 (PStr ''relevance_score'', PFloat 1)]]),
             (PStr ''relationships'', PList []),
             (PStr ''content_analysis'', PDict d)])
      | Some v \<Rightarrow> Inl AttributeError)"
| "modal_result entity_name entity_type (PList xs) =
     (if PStr ''entity_info'' \<in> set xs then Inl TypeError else Inr (PList xs))"
| "modal_result entity_name entity_type (PStr s) =
     (if is_infix ''entity_info'' s then Inl TypeError else Inr (PStr s))"
| "modal_result entity_name entity_type v = (if truthy v then Inl TypeError else Inr v)"

text \<open>\<^verbatim>\<open>_process_table_content\<close>; the entity name is
  \<^verbatim>\<open>f"Table_{index}_{table_caption[:20]}"\<close>.\<close>

definition process_table_content :: "env \<Rightarrow> dict \<Rightarrow> nat \<Rightarrow> prompt list \<Rightarrow> (exn + pyval) \<times> prompt list" where
  "process_table_content ev item index reqs =
     (if \<not> truthy (dict_get item ''table_body'' (PList [])) then (Inr PNone, reqs)
      else (case format_table_data (py_repr ev) (dict_get item ''table_body'' (PList [])) of
        Inl e \<Rightarrow> (Inl e, reqs)
      | Inr table_str \<Rightarrow>
     (case py_slice_to 20 (dict_get item ''table_caption'' (PStr unnamed_table)) of
        Inl e \<Rightarrow> (Inl e, reqs)
      | Inr caption20 \<Rightarrow>
     (case call_llm ev reqs
             (TablePrompt (''Table_'' @ show_nat index @ ''_'' @ py_str (py_repr ev) caption20)
                (dict_get item ''img_path'' (PStr []))
                (dict_get item ''table_caption'' (PStr unnamed_table))
                table_str
                (dict_get item ''table_footnote'' (PStr []))) of
        (result, reqs') \<Rightarrow>
          (modal_result (''Table_'' @ show_nat index @ ''_'' @ py_str (py_repr ev) caption20)
             ''table'' result, reqs')))))"

text \<open>\<^verbatim>\<open>_process_image_content\<close>; the default caption is U+672A U+547D U+540D
  U+56FE U+7247, in UTF-8.\<close>

definition unnamed_image :: string where
  "unnamed_image = map char_of
     [0xE6, 0x9C, 0xAA, 0xE5, 0x91, 0xBD, 0xE5, 0x90, 0x8D, 0xE5, 0x9B, 0xBE, 0xE7, 0x89, 0x87 :: nat]"

definition process_image_content :: "env \<Rightarrow> dict \<Rightarrow> nat \<Rightarrow> prompt list \<Rightarrow> (exn + pyval) \<times> prompt list" where
  "process_image_content ev item index reqs =
     (case py_slice_to 20 (dict_get item ''image_caption'' (PStr unnamed_image)) of
        Inl e \<Rightarrow> (Inl e, reqs)
      | Inr caption20 \<Rightarrow>
     (case call_llm ev reqs
             (VisionPrompt (''Image_'' @ show_nat index @ ''_'' @ py_str (py_repr ev) caption20)
                (dict_get item ''img_path'' (PStr []))
                (dict_get item ''image_caption'' (PStr unnamed_image))
                (dict_get item ''footnotes'' (PStr []))) of
        (result, reqs') \<Rightarrow>
          (modal_result (''Image_'' @ show_nat index @ ''_'' @ py_str (py_repr ev) caption20)
             ''image'' result, reqs')))"

text \<open>\<^verbatim>\<open>_process_generic_content\<close>.\<close>

definition process_generic_content :: "env \<Rightarrow> dict \<Rightarrow> nat \<Rightarrow> prompt list \<Rightarrow> (exn + pyval) \<times> prompt list" where
  "process_generic_content ev item index reqs =
     (if length (take 1000 (py_str (py_repr ev)
                    (dict_get item ''text'' (dict_get item ''content'' (PStr []))))) < 5
      then (Inr PNone, reqs)
      else (case call_llm ev reqs
                   (GenericTextExtraction (take 1000 (py_str (py_repr ev)
                      (dict_get item ''text'' (dict_get item ''content'' (PStr [])))))) of
              (result, reqs') \<Rightarrow> (Inr result, reqs')))"

text \<open>The dispatch on the content type.\<close>

definition process_content :: "env \<Rightarrow> dict \<Rightarrow> nat \<Rightarrow> prompt list \<Rightarrow> (exn + pyval) \<times> prompt list" where
  "process_content ev item i reqs =
     (if dict_get item ''type'' (PStr ''text'') = PStr ''text'' then process_text_content ev item i reqs
      else if dict_get item ''type'' (PStr ''text'') = PStr ''table'' then process_table_content ev item i reqs
      else if dict_get item ''type'' (PStr ''text'') = PStr ''image'' then process_image_content ev item i reqs
      else process_generic_content ev item i reqs)"

text \<open>
  What one result adds to \<^verbatim>\<open>all_entities\<close> and \<^verbatim>\<open>all_relationships\<close>:
  \<^verbatim>\<open>
    if result:
        entities = result.get('entities', [])
        relationships = result.get('relationships', [])
        for entity in entities: (source_block, source_page, source_type)
        for rel in relationships: (source_block, source_page)
        all_entities.extend(entities)
        all_relationships.extend(relationships)
  \<close>
  Both loops come before both \<^verbatim>\<open>extend\<close>: when one of them raises, nothing is added.
  \<^verbatim>\<open>.get\<close> raises on a true result that is no dictionary.
\<close>

definition collect :: "dict \<Rightarrow> nat \<Rightarrow> pyval \<Rightarrow> pyval list \<times> pyval list" where
  "collect item i result =
     (case result of
        PDict d \<Rightarrow>
          (case annotate [(''source_block'', PInt (int i)),
                          (''source_page'', dict_get item ''page_idx'' (PInt 0)),
                          (''source_type'', dict_get item ''type'' (PStr ''text''))]
                  (dict_get d ''entities'' (PList [])) of
             Inl e \<Rightarrow> ([], [])
           | Inr es \<Rightarrow>
               (case annotate [(''source_block'', PInt (int i)),
                               (''source_page'', dict_get item ''page_idx'' (PInt 0))]
                       (dict_get d ''relationships'' (PList [])) of
                  Inl e \<Rightarrow> ([], [])
                | Inr rs \<Rightarrow> (es, rs)))
      | _ \<Rightarrow> ([], []))"

text \<open>The loop of \<^verbatim>\<open>RAGAnythingEntityExtractor.extract_entities_from_content_list\<close>;
  its \<^verbatim>\<open>try\<close> holds the whole body.\<close>

fun content_loop :: "env \<Rightarrow> nat \<Rightarrow> pyval list \<Rightarrow> prompt list \<Rightarrow> (pyval list \<times> pyval list) \<times> prompt list" where
  "content_loop ev i [] reqs = (([], []), reqs)"
| "content_loop ev i (PDict item # items) reqs =
     (case process_content ev item i reqs of
        (result, reqs1) \<Rightarrow>
          (case content_loop ev (Suc i) items reqs1 of
             ((es, rs), reqs2) \<Rightarrow>
               (case result of
                  Inl e \<Rightarrow> ((es, rs), reqs2)
                | Inr r \<Rightarrow> ((fst (collect item i r) @ es, snd (collect item i r) @ rs), reqs2))))"
| "content_loop ev i (v # items) reqs = content_loop ev (Suc i) items reqs"

text \<open>
  \<^verbatim>\<open>_analyze_document_structure\<close> of this extractor (and of the LightRAG one): it
  counts the content types in a dictionary and collects the page indices in a set; a
  type or page index that cannot be hashed raises \<^verbatim>\<open>TypeError\<close>. Keys are the same
  when they are equal in Python, where \<^verbatim>\<open>1\<close>, \<^verbatim>\<open>1.0\<close> and \<^verbatim>\<open>True\<close> are.
\<close>

fun hash_key :: "pyval \<Rightarrow> pyval option" where
  "hash_key (PList xs) = None"
| "hash_key (PDict d) = None"
| "hash_key (PBool b) = Some (PInt (if b then 1 else 0))"
| "hash_key (PFloat r) = Some (if r = of_int \<lfloor>r\<rfloor> then PInt \<lfloor>r\<rfloor> else PFloat r)"
| "hash_key v = Some v"

fun count_key :: "pyval \<Rightarrow> dict \<Rightarrow> dict" where
  "count_key k [] = [(k, PInt 1)]"
| "count_key k ((k', v) # ps) =
     (if hash_key k' = hash_key k
      then (k', (case v of PInt n \<Rightarrow> PInt (n + 1) | _ \<Rightarrow> v)) # ps
      else (k', v) # count_key k ps)"

definition add_page :: "pyval \<Rightarrow> pyval list \<Rightarrow> pyval list" where
  "add_page p pages = (if hash_key p \<in> set (map hash_key pages) then pages else pages @ [p])"

fun content_statistics :: "pyval list \<Rightarrow> dict \<Rightarrow> pyval list \<Rightarrow> exn + dict \<times> pyval list" where
  "content_statistics [] content_types pages = Inr (content_types, pages)"
| "content_statistics (PDict item # items) content_types pages =
     (if hash_key (dict_get item ''type'' (PStr ''unknown'')) = None then Inl TypeError
      else if dict_get item ''page_idx'' PNone = PNone then
        content_statistics items
          (count_key (dict_get item ''type'' (PStr ''unknown'')) content_types) pages
      else if hash_key (dict_get item ''page_idx'' PNone) = None then Inl TypeError
      else content_statistics items
             (count_key (dict_get item ''type'' (PStr ''unknown'')) content_types)
             (add_page (dict_get item ''page_idx'' PNone) pages))"
| "content_statistics (v # items) content_types pages = content_statistics items content_types pages"

definition document_structure :: "pyval list \<Rightarrow> exn + pyval" where
  "document_structure content_list =
     (case content_statistics content_list [] [] of
        Inl e \<Rightarrow> Inl e
      | Inr (content_types, pages) \<Rightarrow>
          Inr (PDict
            [(PStr ''document_info'',
              PDict [(PStr ''title'', PStr ''Processed Document''),
                     (PStr ''type'', PStr ''Technical Document''),
                     (PStr ''domain'', PStr ''General''),
                     (PStr ''language'', PStr ''Mixed'')]),
             (PStr ''content_statistics'',
              PDict [(PStr ''total_pages'', PInt (int (length pages))),
                     (PStr ''content_types'', PDict content_types)]),
             (PStr ''structure_entities'', PList []),
             (PStr ''global_entities'', PList [])]))"

text \<open>\<^verbatim>\<open>RAGAnythingEntityExtractor.extract_entities_from_content_list\<close> (the flag
  \<^verbatim>\<open>extract_relations\<close> is not used by it) and \<^verbatim>\<open>extract_entities_sync\<close>.\<close>

definition rag_extract_entities_from_content_list ::
  "env \<Rightarrow> pyval list \<Rightarrow> bool \<Rightarrow> prompt list \<Rightarrow> (exn + extraction_result) \<times> prompt list" where
  "rag_extract_entities_from_content_list ev content_list extract_relations reqs =
     (case content_loop ev 0 content_list reqs of
        ((all_entities, all_relationships), reqs') \<Rightarrow>
          (case document_structure content_list of
             Inl e \<Rightarrow> (Inl e, reqs')
           | Inr doc_analysis \<Rightarrow>
               (Inr \<lparr>entities = all_entities,
                     relationships = all_relationships,
                     document_analysis = doc_analysis,
                     statistics =
                       [(PStr ''total_entities'', PInt (int (length all_entities))),
                        (PStr ''total_relationships'', PInt (int (length all_relationships))),
                        (PStr ''content_blocks_processed'', PInt (int (length content_list))),
                        (PStr ''processing_method'', PStr ''raganything_style'')]\<rparr>, reqs')))"

definition rag_extract_entities_sync ::
  "env \<Rightarrow> pyval list \<Rightarrow> prompt list \<Rightarrow> extraction_result \<times> prompt list" where
  "rag_extract_entities_sync ev content_list reqs =
     (case rag_extract_entities_from_content_list ev content_list True reqs of
        (Inl e, reqs') \<Rightarrow> (error_result ev e, reqs')
      | (Inr r, reqs') \<Rightarrow> (r, reqs'))"

section \<open>\<^verbatim>\<open>LightRAGEntityExtractor\<close>\<close>

text \<open>
  This extractor hands the content to the LightRAG library. Two functions of the library
  are parameters: \<open>md5_hex\<close>, the digest inside \<^verbatim>\<open>compute_mdhash_id\<close>, and
  \<open>extract\<close>, the call of \<^verbatim>\<open>lightrag.operate.extract_entities\<close> on the chunks, with
  \<open>None\<close> when it raises. Its results are tuples, lists of values here.
\<close>

text \<open>\<^verbatim>\<open>_extract_text_content\<close>; the rows of a table are
  \<^verbatim>\<open>for row in body[:5]: if isinstance(row, list): ...\<close>.\<close>

fun table_row_texts :: "(pyval \<Rightarrow> string) \<Rightarrow> pyval list \<Rightarrow> string list" where
  "table_row_texts repr [] = []"
| "table_row_texts repr (PList cells # rows) =
     join '' | '' (map (\<lambda>cell. take 50 (py_str repr cell)) (take 8 cells))
     # table_row_texts repr rows"
| "table_row_texts repr (v # rows) = table_row_texts repr rows"

definition table_text :: "(pyval \<Rightarrow> string) \<Rightarrow> dict \<Rightarrow> exn + string" where
  "table_text repr item =
     (let caption = dict_get item ''table_caption'' (PStr []);
          body = dict_get item ''table_body'' (PList []);
          head = (if truthy caption then [''Table: '' @ py_str repr caption] else [])
      in if \<not> truthy body then Inr (join ''\<newline>'' head)
         else (case py_slice_to 5 body of Inl e \<Rightarrow> Inl e
               | Inr b \<Rightarrow> (case py_iter b of Inl e \<Rightarrow> Inl e
                   | Inr rows \<Rightarrow> Inr (join ''\<newline>'' (head @ table_row_texts repr rows)))))"

definition extract_text_content :: "(pyval \<Rightarrow> string) \<Rightarrow> dict \<Rightarrow> exn + string" where
  "extract_text_content repr item =
     (if dict_get item ''type'' (PStr ''text'') = PStr ''text'' then
        py_strip (dict_get item ''text'' (PStr []))
      else if dict_get item ''type'' (PStr ''text'') = PStr ''table'' then table_text repr item
      else if dict_get item ''type'' (PStr ''text'') = PStr ''image'' then
        Inr (if truthy (dict_get item ''image_caption'' (PStr []))
             then ''Image: '' @ py_str repr (dict_get item ''image_caption'' (PStr []))
             else ''Image content'')
      else Inr (take 500 (py_str repr (dict_get item ''text'' (dict_get item ''content'' (PStr []))))))"

text \<open>\<^verbatim>\<open>_convert_to_lightrag_chunks\<close>: one chunk for every dictionary of the list,
  under the identifier of its text.\<close>

fun convert_to_lightrag_chunks ::
  "(string \<Rightarrow> string) \<Rightarrow> (pyval \<Rightarrow> string) \<Rightarrow> nat \<Rightarrow> pyval list \<Rightarrow> dict \<Rightarrow> exn + dict" where
  "convert_to_lightrag_chunks md5_hex repr i [] lightrag_chunks = Inr lightrag_chunks"
| "convert_to_lightrag_chunks md5_hex repr i (PDict item # items) lightrag_chunks =
     (case extract_text_content repr item of
        Inl e \<Rightarrow> Inl e
      | Inr content_text \<Rightarrow>
          convert_to_lightrag_chunks md5_hex repr (Suc i) items
            (dict_set (PStr (''chunk-'' @ md5_hex content_text))
               (PDict [(PStr ''content'', PStr content_text),
                       (PStr ''chunk_order_index'', PInt (int i)),
                       (PStr ''full_doc_id'', PStr ''ragcl-document''),
                       (PStr ''chunk_index'', PInt (int i)),
                       (PStr ''file_path'', dict_get item ''file_path'' (PStr ''unknown'')),
                       (PStr ''page_idx'', dict_get item ''page_idx'' (PInt 0)),
                       (PStr ''content_type'', dict_get item ''type'' (PStr ''text'')),
                       (PStr ''source_item'', PDict item)])
               lightrag_chunks))"
| "convert_to_lightrag_chunks md5_hex repr i (v # items) lightrag_chunks =
     convert_to_lightrag_chunks md5_hex repr (Suc i) items lightrag_chunks"

text \<open>\<^verbatim>\<open>_process_chunk_results\<close>. \<^verbatim>\<open>edge_data.get("weight", 1.0) / 10.0\<close> raises
  \<^verbatim>\<open>TypeError\<close> on a weight that is no number, and \<^verbatim>\<open>OverflowError\<close> on an integer
  that is too large to become a float (one that rounds to \<open>2 ^ 1024\<close> or beyond).\<close>

fun py_div10 :: "pyval \<Rightarrow> exn + pyval" where
  "py_div10 (PInt n) =
     (if \<bar>n\<bar> < 2 ^ 1024 - 2 ^ 970 then Inr (PFloat (of_int n / 10)) else Inl OverflowError)"
| "py_div10 (PFloat r) = Inr (PFloat (r / 10))"
| "py_div10 (PBool b) = Inr (PFloat ((if b then 1 else 0) / 10))"
| "py_div10 v = Inl TypeError"

fun node_entities :: "(pyval \<times> pyval) list \<Rightarrow> pyval list" where
  "node_entities [] = []"
| "node_entities ((entity_name, PDict entity_data) # nodes) =
     PDict [(PStr ''name'', entity_name),
            (PStr ''type'', dict_get entity_data ''entity_type'' (PStr ''Entity'')),
            (PStr ''description'', dict_get entity_data ''description'' (PStr [])),
            (PStr ''relevance_score'', PFloat 1),
            (PStr ''source_type'', PStr ''lightrag''),
            (PStr ''raw_data'', PDict entity_data)]
     # node_entities nodes"
| "node_entities (kv # nodes) = node_entities nodes"

fun edge_relationships :: "(pyval \<times> pyval) list \<Rightarrow> exn + pyval list" where
  "edge_relationships [] = Inr []"
| "edge_relationships ((k, PDict edge_data) # edges) =
     (case py_div10 (dict_get edge_data ''weight'' (PFloat 1)) of
        Inl e \<Rightarrow> Inl e
      | Inr confidence \<Rightarrow>
          (case edge_relationships edges of
             Inl e \<Rightarrow> Inl e
           | Inr rs \<Rightarrow>
               Inr (PDict [(PStr ''from'', dict_get edge_data ''src_id'' (PStr [])),
                           (PStr ''to'', dict_get edge_data ''tgt_id'' (PStr [])),
                           (PStr ''relation'', dict_get edge_data ''keywords'' (PStr ''related_to'')),
                           (PStr ''description'', dict_get edge_data ''description'' (PStr [])),
                           (PStr ''confidence'', confidence),
                           (PStr ''raw_data'', PDict edge_data)] # rs)))"
| "edge_relationships (kv # edges) = edge_relationships edges"

fun process_chunk_results :: "pyval list list \<Rightarrow> exn + pyval list \<times> pyval list" where
  "process_chunk_results [] = Inr ([], [])"
| "process_chunk_results (chunk_result # chunk_results) =
     (case (if length chunk_result \<ge> 2
            then (case edge_relationships (case chunk_result ! 1 of PDict edges \<Rightarrow> edges | _ \<Rightarrow> []) of
                    Inl e \<Rightarrow> Inl e
                  | Inr rs \<Rightarrow>
                      Inr (node_entities (case chunk_result ! 0 of PDict nodes \<Rightarrow> nodes | _ \<Rightarrow> []), rs))
            else Inr ([], [])) of
        Inl e \<Rightarrow> Inl e
      | Inr (es, rs) \<Rightarrow>
          (case process_chunk_results chunk_results of
             Inl e \<Rightarrow> Inl e
           | Inr (es', rs') \<Rightarrow> Inr (es @ es', rs @ rs')))"

text \<open>
  \<^verbatim>\<open>LightRAGEntityExtractor.extract_entities_from_content_list\<close>: the four steps
  inside one \<^verbatim>\<open>try\<close>, whose \<^verbatim>\<open>except\<close> returns the failure result;
  \<^verbatim>\<open>_extract_entities_with_lightrag\<close> turns a failure of the library into an empty
  list of results.
\<close>

definition lightrag_steps ::
  "(string \<Rightarrow> string) \<Rightarrow> (dict \<Rightarrow> pyval list list option) \<Rightarrow> (pyval \<Rightarrow> string) \<Rightarrow> pyval list
     \<Rightarrow> exn + extraction_result" where
  "lightrag_steps md5_hex extract repr content_list =
     (case convert_to_lightrag_chunks md5_hex repr 0 content_list [] of
        Inl e \<Rightarrow> Inl e
      | Inr lightrag_chunks \<Rightarrow>
     (case process_chunk_results
             (case extract lightrag_chunks of None \<Rightarrow> [] | Some chunk_results \<Rightarrow> chunk_results) of
        Inl e \<Rightarrow> Inl e
      | Inr (es, rs) \<Rightarrow>
     (case document_structure content_list of
        Inl e \<Rightarrow> Inl e
      | Inr doc_analysis \<Rightarrow>
          Inr \<lparr>entities = es,
               relationships = rs,
               document_analysis = doc_analysis,
               statistics =
                 [(PStr ''total_entities'', PInt (int (length es))),
                  (PStr ''total_relationships'', PInt (int (length rs))),
                  (PStr ''chunks_processed'', PInt (int (length lightrag_chunks))),
                  (PStr ''content_blocks_processed'', PInt (int (length content_list)))]\<rparr>)))"

definition lightrag_extract_entities_from_content_list ::
  "env \<Rightarrow> (string \<Rightarrow> string) \<Rightarrow> (dict \<Rightarrow> pyval list list option) \<Rightarrow> pyval list \<Rightarrow> bool
     \<Rightarrow> extraction_result" where
  "lightrag_extract_entities_from_content_list ev md5_hex extract content_list extract_relations =
     (case lightrag_steps md5_hex extract (py_repr ev) content_list of
        Inl e \<Rightarrow> error_result ev e
      | Inr r \<Rightarrow> r)"

section \<open>The batch orchestrator\<close>

text \<open>
  \<^verbatim>\<open>RAGAnythingCL.parse_documents_batch\<close> (\<^verbatim>\<open>ragcl.py\<close>):
  \<^verbatim>\<open>
    results = {}
    failed_files = []
    for i in range(0, len(file_paths), batch_size):
        batch = file_paths[i:i + batch_size]
        with ThreadPoolExecutor(max_workers=max_workers) as executor:
            future_to_path = {executor.submit(self.parse_document, file_path, ...): file_path
                              for file_path in batch}
            for future in as_completed(future_to_path):
                file_path = future_to_path[future]
                try:
                    content_list = future.result()
                    results[str(file_path)] = content_list
                except Exception as e:
                    self.logger.error(...)
                    failed_files.append(str(file_path))
    (logging)
    return results
  \<close>
  A path is a string. \<open>parse_document\<close> is the outcome of the worker for a path: the
  parser is outside. The order in which the futures of a chunk complete is not fixed by
  the code: \<open>as_completed\<close> is a parameter, any rearrangement of the chunk. The threads
  themselves are not modelled.
\<close>

type_synonym path = string

record config =
  batch_size :: int
  max_workers :: int

text \<open>The slices \<^verbatim>\<open>file_paths[i:i + batch_size]\<close> for
  \<^verbatim>\<open>i in range(0, len(file_paths), batch_size)\<close> and a positive step.\<close>

function chunks :: "nat \<Rightarrow> 'a list \<Rightarrow> 'a list list" where
  "chunks n xs = (if n = 0 \<or> xs = [] then [] else take n xs # chunks n (drop n xs))"
  by pat_completeness auto
termination
  by (relation "measure (\<lambda>(n, xs). length xs)") auto

declare chunks.simps [simp del]

text \<open>The inner loop over the completed futures of one chunk, and the outer loop.\<close>

fun collect_results ::
  "(path \<Rightarrow> exn + pyval list) \<Rightarrow> path list \<Rightarrow> (path \<rightharpoonup> pyval list) \<times> path list
     \<Rightarrow> (path \<rightharpoonup> pyval list) \<times> path list" where
  "collect_results parse_document [] (results, failed_files) = (results, failed_files)"
| "collect_results parse_document (file_path # done) (results, failed_files) =
     (case parse_document file_path of
        Inr content_list \<Rightarrow>
          collect_results parse_document done (results(file_path \<mapsto> content_list), failed_files)
      | Inl e \<Rightarrow>
          collect_results parse_document done (results, failed_files @ [file_path]))"

fun batch_loop ::
  "(path \<Rightarrow> exn + pyval list) \<Rightarrow> (path list \<Rightarrow> path list) \<Rightarrow> path list list
     \<Rightarrow> (path \<rightharpoonup> pyval list) \<times> path list \<Rightarrow> (path \<rightharpoonup> pyval list) \<times> path list" where
  "batch_loop parse_document as_completed [] st = st"
| "batch_loop parse_document as_completed (batch # batches) st =
     batch_loop parse_document as_completed batches
       (collect_results parse_document (as_completed batch) st)"

text \<open>
  The state of the two local variables when the loop ends. \<^verbatim>\<open>range\<close> raises
  \<^verbatim>\<open>ValueError\<close> for the step 0 and is empty for a negative step;
  \<^verbatim>\<open>ThreadPoolExecutor\<close> raises \<^verbatim>\<open>ValueError\<close> unless \<^verbatim>\<open>max_workers\<close> is positive.
\<close>

definition batch_state ::
  "config \<Rightarrow> (path \<Rightarrow> exn + pyval list) \<Rightarrow> (path list \<Rightarrow> path list) \<Rightarrow> path list
     \<Rightarrow> exn + (path \<rightharpoonup> pyval list) \<times> path list" where
  "batch_state cfg parse_document as_completed file_paths =
     (if batch_size cfg = 0 then Inl ValueError
      else if batch_size cfg < 0 \<or> file_paths = [] then Inr (Map.empty, [])
      else if max_workers cfg \<le> 0 then Inl ValueError
      else Inr (batch_loop parse_document as_completed
                  (chunks (nat (batch_size cfg)) file_paths) (Map.empty, [])))"

text \<open>\<^verbatim>\<open>parse_documents_batch\<close> returns \<^verbatim>\<open>results\<close>.\<close>

definition parse_documents_batch ::
  "config \<Rightarrow> (path \<Rightarrow> exn + pyval list) \<Rightarrow> (path list \<Rightarrow> path list) \<Rightarrow> path list
     \<Rightarrow> exn + (path \<rightharpoonup> pyval list)" where
  "parse_documents_batch cfg parse_document as_completed file_paths =
     (case batch_state cfg parse_document as_completed file_paths of
        Inl e \<Rightarrow> Inl e
      | Inr (results, failed_files) \<Rightarrow> Inr results)"

section \<open>Notions used in the statements\<close>

text \<open>The two counts of the statistics are the lengths of the two sequences; and the
  shape of the failure result: no entities, no relationships, and the one key
  \<^verbatim>\<open>error\<close> in the statistics.\<close>

definition totals_match :: "extraction_result \<Rightarrow> bool" where
  "totals_match r \<longleftrightarrow>
     map_of (statistics r) (PStr ''total_entities'') = Some (PInt (int (length (entities r)))) \<and>
     map_of (statistics r) (PStr ''total_relationships'')
       = Some (PInt (int (length (relationships r))))"

definition error_shaped :: "extraction_result \<Rightarrow> bool" where
  "error_shaped r \<longleftrightarrow>
     entities r = [] \<and> relationships r = [] \<and> map fst (statistics r) = [PStr ''error'']"

text \<open>The addresses of the dictionary objects of a content list; a text block whose
  trimmed text has fewer than ten characters; and the block an entity names as its
  source.\<close>

fun refs :: "elem list \<Rightarrow> addr list" where
  "refs [] = []"
| "refs (Ref a # es) = a # refs es"
| "refs (Val v # es) = refs es"

definition short_text_block :: "dict \<Rightarrow> bool" where
  "short_text_block item \<longleftrightarrow>
     map_of item (PStr ''type'') = Some (PStr ''text'') \<and>
     (case map_of item (PStr ''text'') of Some (PStr t) \<Rightarrow> length (strip t) < 10 | _ \<Rightarrow> False)"

definition source_block :: "pyval \<Rightarrow> pyval" where
  "source_block e = (case e of PDict d \<Rightarrow> dict_get d ''source_block'' PNone | _ \<Rightarrow> PNone)"

text \<open>For the examples: an inference service that gives the same answer to every
  request, together with the JSON decoder above; and a parser that fails on one file.\<close>

definition fixed_answer :: "string \<Rightarrow> env" where
  "fixed_answer answer =
     \<lparr>completion = (\<lambda>reqs p. Some answer), json_decode = json_loads,
      py_repr = (\<lambda>v. ''?''), exn_text = (\<lambda>e. ''error'')\<rparr>"

definition second_fails :: "path \<Rightarrow> exn + pyval list" where
  "second_fails p = (if p = ''b.pdf'' then Inl ValueError else Inr [PStr p])"

section \<open>Properties of the table rendering\<close>

text \<open>Whatever the column bound, a rendered table has at most ten rows, no row has more
  cells than the bound, and no cell has more than fifty characters.\<close>

lemma row_cells_bounds:
  assumes "row_cells cols repr row = Inr cs"
  shows "length cs \<le> cols \<and> list_all (\<lambda>c. length c \<le> 50) cs"
  using assms
  by (cases row) (auto simp: row_cells_def list_all_iff split: sum.splits)

lemma rows_cells_bounds:
  "rows_cells cols repr rows = Inr css \<Longrightarrow>
   length css = length rows \<and>
   list_all (\<lambda>cs. length cs \<le> cols \<and> list_all (\<lambda>c. length c \<le> 50) cs) css"
proof (induction rows arbitrary: css)
  case Nil
  then show ?case by simp
next
  case (Cons row rows)
  then show ?case
    by (auto split: sum.splits dest: row_cells_bounds)
qed

lemma table_cells_bounds:
  assumes "table_cells cols repr table_body = Inr css"
  shows "length css \<le> 10 \<and>
         list_all (\<lambda>cs. length cs \<le> cols \<and> list_all (\<lambda>c. length c \<le> 50) cs) css"
  using assms
  by (cases table_body) (auto simp: table_cells_def split: sum.splits dest!: rows_cells_bounds)

text \<open>
  Claim C3: the table rendering emits at most the first 10 rows, at most the first 8
  columns of each row, and cells of at most 50 characters. The bound on the columns is 8
  in \<^verbatim>\<open>_format_table_data\<close> and 10 in \<^verbatim>\<open>_format_table_for_llm\<close>: on a row of nine
  cells the first renders eight of them and the second all nine.
\<close>

theorem format_table_for_llm_nine_columns:
  "format_table_for_llm repr
     (PList [PList [PStr ''a'', PStr ''b'', PStr ''c'', PStr ''d'', PStr ''e'', PStr ''f'',
                    PStr ''g'', PStr ''h'', PStr ''i'']])
   = Inr (row_label @ ''1: a | b | c | d | e | f | g | h | i'')
   \<and> format_table_data repr
     (PList [PList [PStr ''a'', PStr ''b'', PStr ''c'', PStr ''d'', PStr ''e'', PStr ''f'',
                    PStr ''g'', PStr ''h'', PStr ''i'']])
   = Inr (row_label @ ''1: a | b | c | d | e | f | g | h'')"
  by (simp add: format_table_for_llm_def format_table_data_def render_table_def
      table_cells_def row_cells_def show_nat.simps)

section \<open>Properties of the response recoverer\<close>

text \<open>The candidates are tried from the left: the value is that of the first candidate
  that is not blank and decodes.\<close>

lemma try_candidates_skip:
  assumes "list_all (\<lambda>c. strip c = [] \<or> loads (strip c) = None) cs"
  shows "try_candidates loads (cs @ ds) = try_candidates loads ds"
  using assms by (induction cs) auto

lemma try_candidates_first:
  assumes "list_all (\<lambda>c. strip c = [] \<or> loads (strip c) = None) cs"
    and "strip d \<noteq> []" and "loads (strip d) = Some v"
  shows "try_candidates loads (cs @ d # ds) = v"
  using assms by (simp add: try_candidates_skip)

text \<open>Trimming twice is trimming once, so a whole response that decodes is returned
  before any pattern is looked at.\<close>

lemma trim_right_Cons:
  "rev (dropWhile P (rev (x # xs))) =
     (if list_all P xs then (if P x then [] else [x]) else x # rev (dropWhile P (rev xs)))"
  by (simp add: dropWhile_append list_all_iff)

lemma dropWhile_trim_right:
  assumes "dropWhile P t = t"
  shows "dropWhile P (rev (dropWhile P (rev t))) = rev (dropWhile P (rev t))"
proof (cases t)
  case Nil
  then show ?thesis by simp
next
  case (Cons x xs)
  with assms have "\<not> P x"
    by (metis hd_dropWhile list.distinct(1) list.sel(1))
  then show ?thesis
    unfolding Cons trim_right_Cons by simp
qed

lemma strip_strip: "strip (strip s) = strip s"
proof -
  have "dropWhile isspace (strip s) = strip s"
    unfolding strip_def by (rule dropWhile_trim_right) (rule dropWhile_idem)
  then show ?thesis
    by (simp add: strip_def [of "strip s"]) (simp add: strip_def)
qed

lemma parse_llm_response_whole:
  assumes "strip response \<noteq> []" and "loads (strip response) = Some v"
  shows "parse_llm_response loads response = v"
proof -
  have "response \<noteq> []"
    using assms(1) by (auto simp: strip_def)
  then show ?thesis
    using assms by (simp add: parse_llm_response_def json_candidates_def strip_strip)
qed

text \<open>
  Claim C1: the recoverer tries the whole trimmed response, then the fenced blocks, then
  the brace span, and on the response
  \<^verbatim>\<open>here is the answer:\n```json\n{"entities":[]}\n```\<close> it returns the record through
  the fenced block, on \<^verbatim>\<open>no valid data\<close> nothing. \<^verbatim>\<open>_parse_llm_response\<close> does so.
  \<^verbatim>\<open>_parse_json_response\<close> finds no fenced block and no brace span in the first
  response, since its two patterns ask for backslashes, and returns \<^verbatim>\<open>None\<close>.
\<close>

theorem parse_json_response_fenced_block:
  "parse_llm_response json_loads
     ''here is the answer:\<newline>```json\<newline>{\"entities\":[]}\<newline>```''
   = PDict [(PStr ''entities'', PList [])]
   \<and> parse_llm_response json_loads ''no valid data'' = PNone
   \<and> findall_code_block_escaped
       ''here is the answer:\<newline>```json\<newline>{\"entities\":[]}\<newline>```'' = []
   \<and> findall_brace_escaped
       ''here is the answer:\<newline>```json\<newline>{\"entities\":[]}\<newline>```'' = []
   \<and> parse_json_response json_loads
       (Some ''here is the answer:\<newline>```json\<newline>{\"entities\":[]}\<newline>```'')
   = PNone"
  by code_simp

section \<open>Properties of the merger\<close>

lemma map_of_dict_set: "map_of (dict_set k v d) k' = (if k' = k then Some v else map_of d k')"
  by (induction d) auto

lemma dict_get_dict_set:
  "dict_get (dict_set (PStr k) v d) k' dflt = (if k' = k then v else dict_get d k' dflt)"
  by (simp add: dict_get_def map_of_dict_set)

text \<open>Two blocks alone, the second one short: one unit, a copy of the first block with
  the second block's trimmed text behind a newline; its list of merged blocks holds the
  index of the second block, and the index of the first is the unit's own
  \<^verbatim>\<open>block_index\<close>.\<close>

lemma merge_text_blocks_two:
  assumes "a < length h" and "b < length h"
    and "map_of (h ! a) (PStr ''text'') = Some (PStr ta)"
    and "map_of (h ! b) (PStr ''text'') = Some (PStr tb)"
    and "length (strip tb) < 200"
    and "map_of (h ! a) (PStr ''merged_blocks'') = None"
  shows "merge_text_blocks h [a, b] =
     (Inr [length h],
      h @ [dict_set (PStr ''merged_blocks'')
             (PList [dict_get (h ! b) ''block_index'' (PInt (- 1))])
             (dict_set (PStr ''text'') (PStr (ta @ ''\<newline>'' @ strip tb)) (h ! a))])"
  using assms
  by (simp add: merge_text_blocks_def copy_block_def absorb_def dict_get_def nth_append
      map_of_dict_set)

lemma merge_text_blocks_two_example:
  "merge_text_blocks
     [[(PStr ''type'', PStr ''text''), (PStr ''text'', PStr (replicate 50 (CHR ''a''))),
       (PStr ''block_index'', PInt 0)],
      [(PStr ''type'', PStr ''text''), (PStr ''text'', PStr (replicate 80 (CHR ''b''))),
       (PStr ''block_index'', PInt 1)]] [0, 1] =
     (Inr [2],
      [[(PStr ''type'', PStr ''text''), (PStr ''text'', PStr (replicate 50 (CHR ''a''))),
        (PStr ''block_index'', PInt 0)],
       [(PStr ''type'', PStr ''text''), (PStr ''text'', PStr (replicate 80 (CHR ''b''))),
        (PStr ''block_index'', PInt 1)],
       [(PStr ''type'', PStr ''text''),
        (PStr ''text'', PStr (replicate 50 (CHR ''a'') @ ''\<newline>'' @ replicate 80 (CHR ''b''))),
        (PStr ''block_index'', PInt 0),
        (PStr ''merged_blocks'', PList [PInt 1])]])"
proof -
  have s: "strip (replicate 80 (CHR ''b'')) = replicate 80 (CHR ''b'')"
    by code_simp
  show ?thesis
    using merge_text_blocks_two [of 0
        "[[(PStr ''type'', PStr ''text''), (PStr ''text'', PStr (replicate 50 (CHR ''a''))),
           (PStr ''block_index'', PInt 0)],
          [(PStr ''type'', PStr ''text''), (PStr ''text'', PStr (replicate 80 (CHR ''b''))),
           (PStr ''block_index'', PInt 1)]]" 1 "replicate 50 (CHR ''a'')" "replicate 80 (CHR ''b'')"]
    by (simp add: s dict_get_def)
qed

text \<open>The steps of the loop, and what they leave alone: a step writes to the current unit
  or to a new object only, and a unit that was flushed stays in the result.\<close>

lemma absorb_success:
  assumes "absorb h c b t = (Inr u, h1)" and "c < length h" and "b \<noteq> c"
  shows "\<exists>old ms. map_of (h ! c) (PStr ''text'') = Some (PStr old)
           \<and> dict_get (h ! c) ''merged_blocks'' (PList []) = PList ms
           \<and> map_of (h1 ! c) (PStr ''text'') = Some (PStr (old @ ''\<newline>'' @ t))
           \<and> dict_get (h1 ! c) ''merged_blocks'' (PList [])
               = PList (ms @ [dict_get (h ! b) ''block_index'' (PInt (- 1))])"
    and "length h1 = length h" and "\<forall>y. y \<noteq> c \<longrightarrow> h1 ! y = h ! y"
  using assms
  by (auto simp: absorb_def Let_def dict_get_def map_of_dict_set
      split: option.splits pyval.splits)

lemma merge_loop_frame:
  "length h \<le> length (snd (merge_loop h blocks cur merged))
   \<and> (\<forall>y < length h. cur \<noteq> Some y \<longrightarrow> snd (merge_loop h blocks cur merged) ! y = h ! y)"
proof (induction blocks arbitrary: h cur merged)
  case Nil
  show ?case by simp
next
  case (Cons b bs)
  show ?case
  proof (cases "py_strip (dict_get (h ! b) ''text'' (PStr []))")
    case (Inl e)
    then show ?thesis by simp
  next
    case (Inr t)
    show ?thesis
    proof (cases "length t < 200 \<and> cur \<noteq> None")
      case True
      then obtain c where c: "cur = Some c" by auto
      obtain r h1 where eq: "absorb h c b t = (r, h1)"
        by (cases "absorb h c b t")
      have ab: "length h1 = length h \<and> (\<forall>y. y \<noteq> c \<longrightarrow> h1 ! y = h ! y)"
        using eq by (auto simp: absorb_def Let_def split: option.splits pyval.splits)
      show ?thesis
      proof (cases r)
        case (Inl e)
        then show ?thesis using Inr True c eq ab by simp
      next
        case (Inr u)
        have "length h1 \<le> length (snd (merge_loop h1 bs cur merged))
           \<and> (\<forall>y < length h1. cur \<noteq> Some y \<longrightarrow> snd (merge_loop h1 bs cur merged) ! y = h1 ! y)"
          by (rule Cons.IH)
        then show ?thesis
          using \<open>py_strip (dict_get (h ! b) ''text'' (PStr [])) = Inr t\<close> True c eq ab Inr
          by simp
      qed
    next
      case False
      have "length (h @ [h ! b]) \<le> length (snd (merge_loop (h @ [h ! b]) bs (Some (length h)) (flush cur merged)))
           \<and> (\<forall>y < length (h @ [h ! b]). Some (length h) \<noteq> Some y \<longrightarrow>
                snd (merge_loop (h @ [h ! b]) bs (Some (length h)) (flush cur merged)) ! y = (h @ [h ! b]) ! y)"
        by (rule Cons.IH)
      then show ?thesis
        using Inr False by (auto simp: copy_block_def nth_append)
    qed
  qed
qed

lemma merge_loop_merged:
  "merge_loop h blocks cur merged = (Inr us, h') \<Longrightarrow> set (flush cur merged) \<subseteq> set us"
proof (induction blocks arbitrary: h cur merged)
  case Nil
  then show ?case by auto
next
  case (Cons b bs)
  show ?case
  proof (cases "py_strip (dict_get (h ! b) ''text'' (PStr []))")
    case (Inl e)
    then show ?thesis using Cons.prems by simp
  next
    case (Inr t)
    show ?thesis
    proof (cases "length t < 200 \<and> cur \<noteq> None")
      case True
      then obtain c where c: "cur = Some c" by auto
      obtain r h1 where eq: "absorb h c b t = (r, h1)"
        by (cases "absorb h c b t")
      show ?thesis
      proof (cases r)
        case (Inl e)
        then show ?thesis using Cons.prems Inr True c eq by simp
      next
        case (Inr u)
        then have "merge_loop h1 bs cur merged = (Inr us, h')"
          using Cons.prems \<open>py_strip (dict_get (h ! b) ''text'' (PStr [])) = Inr t\<close> True c eq
          by simp
        then show ?thesis by (rule Cons.IH)
      qed
    next
      case False
      then have "merge_loop (h @ [h ! b]) bs (Some (length h)) (flush cur merged) = (Inr us, h')"
        using Cons.prems Inr by (auto simp: copy_block_def)
      from Cons.IH [OF this] show ?thesis by simp
    qed
  qed
qed

text \<open>The current unit only grows: its text at the end, its list of merged blocks at the end.\<close>

lemma merge_loop_grows:
  assumes "merge_loop h blocks (Some c) merged = (Inr us, h')"
    and "c < length h" and "\<forall>x \<in> set blocks. x \<noteq> c"
    and "map_of (h ! c) (PStr ''text'') = Some (PStr w)"
    and "dict_get (h ! c) ''merged_blocks'' (PList []) = PList ms"
  shows "c \<in> set us \<and> (\<exists>y ms'. map_of (h' ! c) (PStr ''text'') = Some (PStr (w @ y)) \<and>
           dict_get (h' ! c) ''merged_blocks'' (PList []) = PList (ms @ ms'))"
  using assms
proof (induction blocks arbitrary: h merged w ms)
  case Nil
  then show ?case by auto
next
  case (Cons b bs)
  show ?case
  proof (cases "py_strip (dict_get (h ! b) ''text'' (PStr []))")
    case (Inl e)
    then show ?thesis using Cons.prems by simp
  next
    case (Inr t)
    show ?thesis
    proof (cases "length t < 200")
      case True
      obtain r h1 where eq: "absorb h c b t = (r, h1)"
        by (cases "absorb h c b t")
      show ?thesis
      proof (cases r)
        case (Inl e)
        then show ?thesis using Cons.prems Inr True eq by simp
      next
        case (Inr u)
        then have run: "merge_loop h1 bs (Some c) merged = (Inr us, h')"
          using Cons.prems(1) \<open>py_strip (dict_get (h ! b) ''text'' (PStr [])) = Inr t\<close> True eq
          by simp
        have bc: "b \<noteq> c" using Cons.prems(3) by simp
        from absorb_success [OF eq [unfolded Inr] Cons.prems(2) bc] Cons.prems(4,5)
        have h1: "map_of (h1 ! c) (PStr ''text'') = Some (PStr (w @ ''\<newline>'' @ t))"
          "dict_get (h1 ! c) ''merged_blocks'' (PList [])
               = PList (ms @ [dict_get (h ! b) ''block_index'' (PInt (- 1))])"
          "length h1 = length h"
          by auto
        have "c \<in> set us \<and> (\<exists>y ms'. map_of (h' ! c) (PStr ''text'')
                 = Some (PStr ((w @ ''\<newline>'' @ t) @ y)) \<and>
           dict_get (h' ! c) ''merged_blocks'' (PList [])
                 = PList ((ms @ [dict_get (h ! b) ''block_index'' (PInt (- 1))]) @ ms'))"
          using run h1 Cons.prems(2,3) by (intro Cons.IH) simp_all
        then show ?thesis
          by (metis append.assoc)
      qed
    next
      case False
      then have run: "merge_loop (h @ [h ! b]) bs (Some (length h)) (merged @ [c]) = (Inr us, h')"
        using Cons.prems(1) Inr by (auto simp: copy_block_def)
      have "c \<in> set us"
        using merge_loop_merged [OF run] by simp
      moreover have "h' ! c = h ! c"
        using merge_loop_frame [of "h @ [h ! b]" bs "Some (length h)" "merged @ [c]"] run
          Cons.prems(2)
        by (simp add: nth_append)
      ultimately show ?thesis
        using Cons.prems(4,5) by (intro conjI exI [of _ "[]"]) simp_all
    qed
  qed
qed


lemma merge_loop_copy:
  assumes "py_strip (dict_get (h ! x) ''text'' (PStr [])) = Inr t"
    and "\<not> (length t < 200 \<and> cur \<noteq> None)"
  shows "merge_loop h (x # xs) cur merged
       = merge_loop (h @ [h ! x]) xs (Some (length h)) (flush cur merged)"
  using assms by (auto simp: copy_block_def)

lemma merge_loop_absorb:
  assumes "py_strip (dict_get (h ! x) ''text'' (PStr [])) = Inr t" and "length t < 200"
    and "absorb h c x t = (r, h1)"
  shows "merge_loop h (x # xs) (Some c) merged
       = (case r of Inl e \<Rightarrow> (Inl e, h1) | Inr u \<Rightarrow> merge_loop h1 xs (Some c) merged)"
  using assms by simp

lemma merge_loop_short_tail:
  assumes run: "merge_loop h (b # post) (Some c) merged = (Inr us, h')"
    and c: "c < length h" "\<forall>x \<in> set (b # post). x \<noteq> c"
    and x: "map_of (h ! c) (PStr ''text'') = Some (PStr x)"
    and tb: "map_of (h ! b) (PStr ''text'') = Some (PStr tb)" "length (strip tb) < 200"
  shows "c \<in> set us \<and> (\<exists>y ms ms'.
           map_of (h' ! c) (PStr ''text'') = Some (PStr (x @ ''\<newline>'' @ strip tb @ y))
         \<and> dict_get (h' ! c) ''merged_blocks'' (PList [])
             = PList (ms @ dict_get (h ! b) ''block_index'' (PInt (- 1)) # ms'))"
proof -
  have s: "py_strip (dict_get (h ! b) ''text'' (PStr [])) = Inr (strip tb)"
    using tb(1) by (simp add: dict_get_def)
  obtain r h1 where eq: "absorb h c b (strip tb) = (r, h1)"
    by (cases "absorb h c b (strip tb)")
  show ?thesis
  proof (cases r)
    case (Inl e)
    then show ?thesis using run s tb(2) eq by simp
  next
    case (Inr u)
    then have run1: "merge_loop h1 post (Some c) merged = (Inr us, h')"
      using run s tb(2) eq by simp
    have bc: "b \<noteq> c" using c(2) by simp
    from absorb_success [OF eq [unfolded Inr] c(1) bc] x
    obtain ms where h1: "map_of (h1 ! c) (PStr ''text'') = Some (PStr (x @ ''\<newline>'' @ strip tb))"
      "dict_get (h1 ! c) ''merged_blocks'' (PList [])
           = PList (ms @ [dict_get (h ! b) ''block_index'' (PInt (- 1))])"
      "length h1 = length h"
      by auto
    have "c \<in> set us \<and> (\<exists>y ms'. map_of (h' ! c) (PStr ''text'')
             = Some (PStr ((x @ ''\<newline>'' @ strip tb) @ y)) \<and>
           dict_get (h' ! c) ''merged_blocks'' (PList [])
             = PList ((ms @ [dict_get (h ! b) ''block_index'' (PInt (- 1))]) @ ms'))"
      using run1 h1 c by (intro merge_loop_grows [of h1 post c merged us h']) simp_all
    then show ?thesis
      by (simp add: append.assoc) blast
  qed
qed

lemma merge_loop_pair:
  assumes "merge_loop h (pre @ a # b # post) cur merged = (Inr us, h')"
    and "n \<le> length h" and "\<forall>x \<in> set (pre @ a # b # post). x < n"
    and "case cur of None \<Rightarrow> True | Some c \<Rightarrow> n \<le> c \<and> c < length h"
    and "map_of (h ! a) (PStr ''text'') = Some (PStr ta)"
    and "map_of (h ! b) (PStr ''text'') = Some (PStr tb)" and "length (strip tb) < 200"
  shows "\<exists>u \<in> set us. \<exists>x y ms ms'.
           map_of (h' ! u) (PStr ''text'') = Some (PStr (x @ ''\<newline>'' @ strip tb @ y))
         \<and> (x = ta \<or> (\<exists>x0. x = x0 @ ''\<newline>'' @ strip ta))
         \<and> dict_get (h' ! u) ''merged_blocks'' (PList [])
             = PList (ms @ dict_get (h ! b) ''block_index'' (PInt (- 1)) # ms')"
  using assms
proof (induction pre arbitrary: h cur merged)
  case Nil
  have sa: "py_strip (dict_get (h ! a) ''text'' (PStr [])) = Inr (strip ta)"
    using Nil.prems(5) by (simp add: dict_get_def)
  have lt: "a < n" "b < n" "\<forall>x \<in> set (b # post). x < n"
    using Nil.prems(3) by simp_all
  show ?case
  proof (cases "length (strip ta) < 200 \<and> cur \<noteq> None")
    case True
    then obtain c where c: "cur = Some c" by auto
    then have cn: "n \<le> c" "c < length h" using Nil.prems(4) by simp_all
    obtain r h1 where eq: "absorb h c a (strip ta) = (r, h1)"
      by (cases "absorb h c a (strip ta)")
    show ?thesis
    proof (cases r)
      case (Inl e)
      then show ?thesis
        using Nil.prems(1) merge_loop_absorb [OF sa _ eq, of "b # post" merged] True c
        by (simp del: merge_loop.simps)
    next
      case (Inr u)
      then have run1: "merge_loop h1 (b # post) (Some c) merged = (Inr us, h')"
        using Nil.prems(1) merge_loop_absorb [OF sa _ eq, of "b # post" merged] True c
        by (simp del: merge_loop.simps)
      have ac: "a \<noteq> c" using lt(1) cn(1) by simp
      from absorb_success [OF eq [unfolded Inr] cn(2) ac]
      obtain old where h1: "map_of (h1 ! c) (PStr ''text'') = Some (PStr (old @ ''\<newline>'' @ strip ta))"
        "length h1 = length h" "\<forall>y. y \<noteq> c \<longrightarrow> h1 ! y = h ! y"
        by auto
      have b1: "h1 ! b = h ! b" using h1(3) lt(2) cn(1) by simp
      have "c \<in> set us \<and> (\<exists>y ms ms'.
           map_of (h' ! c) (PStr ''text'')
             = Some (PStr ((old @ ''\<newline>'' @ strip ta) @ ''\<newline>'' @ strip tb @ y))
         \<and> dict_get (h' ! c) ''merged_blocks'' (PList [])
             = PList (ms @ dict_get (h1 ! b) ''block_index'' (PInt (- 1)) # ms'))"
        using run1 h1 cn lt(3) Nil.prems(6,7) b1
        by (intro merge_loop_short_tail) auto
      then show ?thesis
        unfolding b1 by blast
    qed
  next
    case False
    let ?h1 = "h @ [h ! a]"
    have run1: "merge_loop ?h1 (b # post) (Some (length h)) (flush cur merged) = (Inr us, h')"
      using Nil.prems(1) merge_loop_copy [OF sa False, of "b # post" merged]
      by (simp del: merge_loop.simps)
    have b1: "?h1 ! b = h ! b" using lt(2) Nil.prems(2) by (simp add: nth_append)
    have "length h \<in> set us \<and> (\<exists>y ms ms'.
           map_of (h' ! length h) (PStr ''text'')
             = Some (PStr (ta @ ''\<newline>'' @ strip tb @ y))
         \<and> dict_get (h' ! length h) ''merged_blocks'' (PList [])
             = PList (ms @ dict_get (?h1 ! b) ''block_index'' (PInt (- 1)) # ms'))"
      using run1 lt(3) Nil.prems(2,5,6,7) b1
      by (intro merge_loop_short_tail) auto
    then show ?thesis
      unfolding b1 by blast
  qed
next
  case (Cons p ps)
  have lt: "p < n" "a < n" "b < n" "\<forall>x \<in> set (ps @ a # b # post). x < n"
    using Cons.prems(3) by simp_all
  show ?case
  proof (cases "py_strip (dict_get (h ! p) ''text'' (PStr []))")
    case (Inl e)
    then show ?thesis using Cons.prems(1) by simp
  next
    case (Inr t)
    show ?thesis
    proof (cases "length t < 200 \<and> cur \<noteq> None")
      case True
      then obtain c where c: "cur = Some c" by auto
      then have cn: "n \<le> c" "c < length h" using Cons.prems(4) by simp_all
      obtain r h1 where eq: "absorb h c p t = (r, h1)"
        by (cases "absorb h c p t")
      show ?thesis
      proof (cases r)
        case (Inl e)
        then show ?thesis
          using Cons.prems(1) merge_loop_absorb [OF Inr _ eq, of "ps @ a # b # post" merged] True c
          by (simp del: merge_loop.simps)
      next
        case (Inr u)
        then have run1: "merge_loop h1 (ps @ a # b # post) cur merged = (Inr us, h')"
          using Cons.prems(1) True c
            merge_loop_absorb [OF \<open>py_strip (dict_get (h ! p) ''text'' (PStr [])) = Inr t\<close> _ eq,
              of "ps @ a # b # post" merged]
          by (simp del: merge_loop.simps)
        have pc: "p \<noteq> c" using lt(1) cn(1) by simp
        from absorb_success(2,3) [OF eq [unfolded Inr] cn(2) pc]
        have h1: "length h1 = length h" "\<forall>y. y \<noteq> c \<longrightarrow> h1 ! y = h ! y"
          by auto
        have ab: "h1 ! a = h ! a" "h1 ! b = h ! b"
          using h1(2) lt(2,3) cn(1) by simp_all
        have n1: "n \<le> length h1"
          using Cons.prems(2) h1(1) by simp
        have inv: "case cur of None \<Rightarrow> True | Some c \<Rightarrow> n \<le> c \<and> c < length h1"
          using c cn h1(1) by simp
        have ta1: "map_of (h1 ! a) (PStr ''text'') = Some (PStr ta)"
          and tb1: "map_of (h1 ! b) (PStr ''text'') = Some (PStr tb)"
          using Cons.prems(5,6) ab by simp_all
        from Cons.IH [OF run1 n1 lt(4) inv ta1 tb1 Cons.prems(7)]
        show ?thesis
          unfolding ab .
      qed
    next
      case False
      let ?h1 = "h @ [h ! p]"
      have run1: "merge_loop ?h1 (ps @ a # b # post) (Some (length h)) (flush cur merged) = (Inr us, h')"
        using Cons.prems(1) merge_loop_copy [OF Inr False, of "ps @ a # b # post" merged]
        by (simp del: merge_loop.simps)
      have ab: "?h1 ! a = h ! a" "?h1 ! b = h ! b"
        using lt(2,3) Cons.prems(2) by (simp_all add: nth_append)
      have n1: "n \<le> length ?h1"
        using Cons.prems(2) by simp
      have inv: "case Some (length h) of None \<Rightarrow> True | Some c \<Rightarrow> n \<le> c \<and> c < length ?h1"
        using Cons.prems(2) by simp
      have ta1: "map_of (?h1 ! a) (PStr ''text'') = Some (PStr ta)"
        and tb1: "map_of (?h1 ! b) (PStr ''text'') = Some (PStr tb)"
        using Cons.prems(5,6) ab by simp_all
      from Cons.IH [OF run1 n1 lt(4) inv ta1 tb1 Cons.prems(7)]
      show ?thesis
        unfolding ab .
    qed
  qed
qed

text \<open>
  Claim C2, as amended: whenever the merger returns for a sequence that has two adjacent
  text blocks, the second with a trimmed text of fewer than 200 characters (such as 50
  and 80), the two are folded into one unit. The unit's text has the first block's text
  (as it is when the block starts the unit, trimmed and behind a newline when the block
  was folded in itself), a newline and the second block's trimmed text, in this order;
  and the unit's \<^verbatim>\<open>merged_blocks\<close> has the second block's index. (The index of a block
  that starts a unit is not put into the list.)
\<close>

theorem merge_text_blocks_adjacent:
  assumes "merge_text_blocks h (pre @ a # b # post) = (Inr us, h')"
    and "\<forall>x \<in> set (pre @ a # b # post). x < length h"
    and "map_of (h ! a) (PStr ''text'') = Some (PStr ta)"
    and "map_of (h ! b) (PStr ''text'') = Some (PStr tb)" and "length (strip tb) < 200"
  shows "\<exists>u \<in> set us. \<exists>x y ms ms'.
           map_of (h' ! u) (PStr ''text'') = Some (PStr (x @ ''\<newline>'' @ strip tb @ y))
         \<and> (x = ta \<or> (\<exists>x0. x = x0 @ ''\<newline>'' @ strip ta))
         \<and> dict_get (h' ! u) ''merged_blocks'' (PList [])
             = PList (ms @ dict_get (h ! b) ''block_index'' (PInt (- 1)) # ms')"
  using assms
  by (intro merge_loop_pair [of h pre a b post None "[]" us h' "length h" ta tb])
    (simp_all add: merge_text_blocks_def)

theorem merge_text_blocks_adjacent_witness:
  "\<exists>u \<in> set [2 :: nat]. \<exists>x y ms ms'.
     map_of ([[(PStr ''type'', PStr ''text''), (PStr ''text'', PStr (replicate 50 (CHR ''a''))),
               (PStr ''block_index'', PInt 0)],
              [(PStr ''type'', PStr ''text''), (PStr ''text'', PStr (replicate 80 (CHR ''b''))),
               (PStr ''block_index'', PInt 1)],
              [(PStr ''type'', PStr ''text''),
               (PStr ''text'',
                PStr (replicate 50 (CHR ''a'') @ ''\<newline>'' @ replicate 80 (CHR ''b''))),
               (PStr ''block_index'', PInt 0),
               (PStr ''merged_blocks'', PList [PInt 1])]] ! u) (PStr ''text'')
       = Some (PStr (x @ ''\<newline>'' @ strip (replicate 80 (CHR ''b'')) @ y))
     \<and> (x = replicate 50 (CHR ''a'') \<or> (\<exists>x0. x = x0 @ ''\<newline>'' @ strip (replicate 50 (CHR ''a''))))
     \<and> dict_get ([[(PStr ''type'', PStr ''text''), (PStr ''text'', PStr (replicate 50 (CHR ''a''))),
               (PStr ''block_index'', PInt 0)],
              [(PStr ''type'', PStr ''text''), (PStr ''text'', PStr (replicate 80 (CHR ''b''))),
               (PStr ''block_index'', PInt 1)],
              [(PStr ''type'', PStr ''text''),
               (PStr ''text'',
                PStr (replicate 50 (CHR ''a'') @ ''\<newline>'' @ replicate 80 (CHR ''b''))),
               (PStr ''block_index'', PInt 0),
               (PStr ''merged_blocks'', PList [PInt 1])]] ! u) ''merged_blocks'' (PList [])
       = PList (ms @ dict_get
           ([[(PStr ''type'', PStr ''text''), (PStr ''text'', PStr (replicate 50 (CHR ''a''))),
              (PStr ''block_index'', PInt 0)],
             [(PStr ''type'', PStr ''text''), (PStr ''text'', PStr (replicate 80 (CHR ''b''))),
              (PStr ''block_index'', PInt 1)]] ! 1) ''block_index'' (PInt (- 1)) # ms')"
proof -
  let ?h = "[[(PStr ''type'', PStr ''text''), (PStr ''text'', PStr (replicate 50 (CHR ''a''))),
              (PStr ''block_index'', PInt 0)],
             [(PStr ''type'', PStr ''text''), (PStr ''text'', PStr (replicate 80 (CHR ''b''))),
              (PStr ''block_index'', PInt 1)]]"
  have s: "length (strip (replicate 80 (CHR ''b''))) < 200"
    by code_simp
  have run: "merge_text_blocks ?h ([] @ 0 # 1 # []) =
     (Inr [2],
      [[(PStr ''type'', PStr ''text''), (PStr ''text'', PStr (replicate 50 (CHR ''a''))),
        (PStr ''block_index'', PInt 0)],
       [(PStr ''type'', PStr ''text''), (PStr ''text'', PStr (replicate 80 (CHR ''b''))),
        (PStr ''block_index'', PInt 1)],
       [(PStr ''type'', PStr ''text''),
        (PStr ''text'', PStr (replicate 50 (CHR ''a'') @ ''\<newline>'' @ replicate 80 (CHR ''b''))),
        (PStr ''block_index'', PInt 0),
        (PStr ''merged_blocks'', PList [PInt 1])]])"
    unfolding append_Nil by (rule merge_text_blocks_two_example)
  have r: "\<forall>x \<in> set ([] @ 0 # 1 # []). x < length ?h"
    by simp
  have ta: "map_of (?h ! 0) (PStr ''text'') = Some (PStr (replicate 50 (CHR ''a'')))"
    by simp
  have tb: "map_of (?h ! 1) (PStr ''text'') = Some (PStr (replicate 80 (CHR ''b'')))"
    by simp
  show ?thesis
    by (rule merge_text_blocks_adjacent [OF run r ta tb s])
qed

text \<open>
  Claim C2 as stated has the indices of both blocks in the unit's list of merged blocks.
  For blocks 0 and 1 with texts of 50 and 80 characters the list is \<open>[1]\<close>.
\<close>

theorem merge_text_blocks_counterexample:
  "fst (merge_text_blocks
     [[(PStr ''type'', PStr ''text''), (PStr ''text'', PStr (replicate 50 (CHR ''a''))),
       (PStr ''block_index'', PInt 0)],
      [(PStr ''type'', PStr ''text''), (PStr ''text'', PStr (replicate 80 (CHR ''b''))),
       (PStr ''block_index'', PInt 1)]] [0, 1]) = Inr [2]
   \<and> dict_get (snd (merge_text_blocks
     [[(PStr ''type'', PStr ''text''), (PStr ''text'', PStr (replicate 50 (CHR ''a''))),
       (PStr ''block_index'', PInt 0)],
      [(PStr ''type'', PStr ''text''), (PStr ''text'', PStr (replicate 80 (CHR ''b''))),
       (PStr ''block_index'', PInt 1)]] [0, 1]) ! 2) ''merged_blocks'' PNone = PList [PInt 1]
   \<and> PInt 0 \<notin> set [PInt 1]"
  by code_simp

section \<open>Properties of the results\<close>

text \<open>
  Claim C4, as amended: in every result that is not the failure result the statistics
  give the number of entities and of relationships, in the three extractors. A run that
  fails returns the failure result, with no entities, no relationships and the one field
  \<^verbatim>\<open>error\<close> in its statistics, through \<^verbatim>\<open>extract_entities_sync\<close> of
  \<^verbatim>\<open>EntityExtractor\<close> and of \<^verbatim>\<open>RAGAnythingEntityExtractor\<close>, and through
  \<^verbatim>\<open>extract_entities_from_content_list\<close> itself in \<^verbatim>\<open>LightRAGEntityExtractor\<close>. The
  \<^verbatim>\<open>extract_entities_from_content_list\<close> of the first two returns no result then: the
  exception leaves it.
\<close>

theorem statistics_totals:
  "case_sum (\<lambda>e. True) totals_match
     (fst (extract_entities_from_content_list ev h content_list extract_relations reqs))
   \<and> case_sum (\<lambda>e. fst (extract_entities_sync ev h content_list reqs) = error_result ev e)
        (\<lambda>r. fst (extract_entities_sync ev h content_list reqs) = r \<and> totals_match r)
        (fst (extract_entities_from_content_list ev h content_list True reqs))
   \<and> case_sum (\<lambda>e. fst (rag_extract_entities_sync ev values reqs) = error_result ev e)
        (\<lambda>r. fst (rag_extract_entities_sync ev values reqs) = r \<and> totals_match r)
        (fst (rag_extract_entities_from_content_list ev values True reqs))
   \<and> case_sum
        (\<lambda>e. lightrag_extract_entities_from_content_list ev md5_hex extract values extract_relations
              = error_result ev e)
        (\<lambda>r. lightrag_extract_entities_from_content_list ev md5_hex extract values extract_relations
              = r \<and> totals_match r)
        (lightrag_steps md5_hex extract (py_repr ev) values)
   \<and> error_shaped (error_result ev e) \<and> \<not> totals_match (error_result ev e)"
proof -
  have a: "case_sum (\<lambda>e. True) totals_match
     (fst (extract_entities_from_content_list ev h content_list rel reqs))" for rel
    by (simp add: extract_entities_from_content_list_def totals_match_def
        split: prod.splits sum.splits)
  have b: "case_sum (\<lambda>e. fst (extract_entities_sync ev h content_list reqs) = error_result ev e)
        (\<lambda>r. fst (extract_entities_sync ev h content_list reqs) = r \<and> totals_match r)
        (fst (extract_entities_from_content_list ev h content_list True reqs))"
    using a [of True]
    by (auto simp: extract_entities_sync_def split: prod.splits sum.splits)
  have c: "case_sum (\<lambda>e. fst (rag_extract_entities_sync ev values reqs) = error_result ev e)
        (\<lambda>r. fst (rag_extract_entities_sync ev values reqs) = r \<and> totals_match r)
        (fst (rag_extract_entities_from_content_list ev values True reqs))"
    by (auto simp: rag_extract_entities_sync_def rag_extract_entities_from_content_list_def
        totals_match_def split: prod.splits sum.splits)
  have d: "case_sum
        (\<lambda>e. lightrag_extract_entities_from_content_list ev md5_hex extract values extract_relations
              = error_result ev e)
        (\<lambda>r. lightrag_extract_entities_from_content_list ev md5_hex extract values extract_relations
              = r \<and> totals_match r)
        (lightrag_steps md5_hex extract (py_repr ev) values)"
    by (auto simp: lightrag_extract_entities_from_content_list_def lightrag_steps_def
        totals_match_def split: prod.splits sum.splits)
  have e: "error_shaped (error_result ev e) \<and> \<not> totals_match (error_result ev e)"
    by (simp add: error_shaped_def error_result_def totals_match_def)
  from a b c d e show ?thesis by blast
qed

text \<open>
  Claim C4 as stated has the failure result for every run that fails. Nothing in
  \<^verbatim>\<open>EntityExtractor.extract_entities_from_content_list\<close> catches an exception: when the
  answer to the relationship request has \<^verbatim>\<open>null\<close> under \<^verbatim>\<open>relationships\<close>, the text
  block gives two entities, \<^verbatim>\<open>all_relationships.extend(None)\<close> raises
  \<^verbatim>\<open>TypeError\<close>, and the call returns no result. The same entry point of
  \<^verbatim>\<open>RAGAnythingEntityExtractor\<close> raises for a block whose type cannot be hashed.
  \<^verbatim>\<open>extract_entities_sync\<close> gives the failure result for the first input.
\<close>

theorem statistics_totals_counterexample:
  "extract_entities_from_content_list
     (fixed_answer ''{\"entities\":[{\"name\":\"a\"},{\"name\":\"b\"}],\"relationships\":null}'')
     [[(PStr ''type'', PStr ''text''), (PStr ''text'', PStr ''a text of some length'')]]
     [Ref 0] True [] =
   (Inl TypeError,
    [[(PStr ''type'', PStr ''text''), (PStr ''text'', PStr ''a text of some length''),
      (PStr ''block_index'', PInt 0)],
     [(PStr ''type'', PStr ''text''), (PStr ''text'', PStr ''a text of some length''),
      (PStr ''block_index'', PInt 0)]],
    [TextEntityExtraction ''a text of some length'',
     DocumentStructureAnalysis
       [PDict [(PStr ''type'', PStr ''text''),
               (PStr ''text_preview'', PStr ''a text of some length''),
               (PStr ''page'', PInt 0)]],
     RelationshipExtraction [PStr ''a'', PStr ''b'']])
   \<and> rag_extract_entities_from_content_list (fixed_answer ''{}'')
       [PDict [(PStr ''type'', PList [])]] True [] = (Inl TypeError, [])
   \<and> error_shaped (fst (extract_entities_sync
       (fixed_answer ''{\"entities\":[{\"name\":\"a\"},{\"name\":\"b\"}],\"relationships\":null}'')
       [[(PStr ''type'', PStr ''text''), (PStr ''text'', PStr ''a text of some length'')]]
       [Ref 0] []))"
  by code_simp

section \<open>Properties of the batch orchestrator\<close>

text \<open>The chunks are consecutive slices of the input, none empty and none longer than
  the chunk size.\<close>

lemma chunks_Nil: "chunks n [] = []"
  by (simp add: chunks.simps)

lemma chunks_step: "0 < n \<Longrightarrow> xs \<noteq> [] \<Longrightarrow> chunks n xs = take n xs # chunks n (drop n xs)"
  by (subst chunks.simps) simp

lemma chunks_concat: "0 < n \<Longrightarrow> concat (chunks n xs) = xs"
proof (induction n xs rule: chunks.induct)
  case (1 n xs)
  then show ?case
    by (cases "xs = []") (simp_all add: chunks_Nil chunks_step)
qed

lemma chunks_length: "list_all (\<lambda>c. c \<noteq> [] \<and> length c \<le> n) (chunks n xs)"
proof (induction n xs rule: chunks.induct)
  case (1 n xs)
  then show ?case
    by (cases "n = 0 \<or> xs = []") (simp_all add: chunks.simps [of n xs])
qed

lemma collect_results_eq:
  "collect_results parse done (results, failed) =
     (results ++ (\<lambda>p. if p \<in> set done then (case parse p of Inr c \<Rightarrow> Some c | Inl e \<Rightarrow> None) else None),
      failed @ filter (\<lambda>p. isl (parse p)) done)"
proof (induction "done" arbitrary: results failed)
  case Nil
  then show ?case by (simp add: map_add_def)
next
  case (Cons p ps)
  show ?case
  proof (cases "parse p")
    case (Inl e)
    then show ?thesis
      by (auto simp: Cons.IH map_add_def fun_eq_iff split: option.splits sum.splits)
  next
    case (Inr c)
    then show ?thesis
      by (auto simp: Cons.IH map_add_def fun_eq_iff split: option.splits sum.splits)
  qed
qed

lemma batch_loop_eq:
  "batch_loop parse as_completed batches (results, failed) =
     (results ++ (\<lambda>p. if p \<in> set (concat (map as_completed batches))
                       then (case parse p of Inr c \<Rightarrow> Some c | Inl e \<Rightarrow> None) else None),
      failed @ filter (\<lambda>p. isl (parse p)) (concat (map as_completed batches)))"
proof (induction batches arbitrary: results failed)
  case Nil
  then show ?case by (simp add: map_add_def)
next
  case (Cons b bs)
  show ?case
    by (auto simp: Cons.IH collect_results_eq map_add_def fun_eq_iff split: option.splits sum.splits)
qed

lemma mset_concat_map:
  assumes "\<And>xs. mset (f xs) = mset xs"
  shows "mset (concat (map f xss)) = mset (concat xss)"
  by (induction xss) (simp_all add: assms)

text \<open>
  Claim C5, as amended: in a batch run with a positive chunk size and a positive number
  of workers, the mapping returned holds exactly the files whose parse succeeded, each
  with its result; a file whose parse raises is not in it and stops no other file, in
  its chunk or a later one. The paths of the failed files, without the cause, are
  collected in the local list \<^verbatim>\<open>failed_files\<close>, which is logged and not returned.
\<close>

theorem parse_documents_batch_isolation:
  assumes "0 < batch_size cfg" and "0 < max_workers cfg"
    and "\<And>batch. mset (as_completed batch) = mset batch"
  shows "parse_documents_batch cfg parse_document as_completed file_paths =
           Inr (\<lambda>p. if p \<in> set file_paths
                     then (case parse_document p of Inr c \<Rightarrow> Some c | Inl e \<Rightarrow> None)
                     else None)
       \<and> (\<exists>failed_files.
            batch_state cfg parse_document as_completed file_paths =
              Inr (\<lambda>p. if p \<in> set file_paths
                        then (case parse_document p of Inr c \<Rightarrow> Some c | Inl e \<Rightarrow> None)
                        else None, failed_files)
            \<and> mset failed_files = mset (filter (\<lambda>p. isl (parse_document p)) file_paths))"
proof -
  let ?done = "concat (map as_completed (chunks (nat (batch_size cfg)) file_paths))"
  have m: "mset ?done = mset file_paths"
    using assms(1) by (simp add: mset_concat_map [OF assms(3)] chunks_concat)
  then have s: "set ?done = set file_paths"
    by (rule mset_eq_setD)
  have f: "mset (filter (\<lambda>p. isl (parse_document p)) ?done)
         = mset (filter (\<lambda>p. isl (parse_document p)) file_paths)"
    using m by (simp only: mset_filter)
  have st: "batch_state cfg parse_document as_completed file_paths =
          Inr (\<lambda>p. if p \<in> set file_paths
                    then (case parse_document p of Inr c \<Rightarrow> Some c | Inl e \<Rightarrow> None)
                    else None, filter (\<lambda>p. isl (parse_document p)) ?done)"
  proof (cases "file_paths = []")
    case True
    then show ?thesis
      using assms(1) by (simp add: batch_state_def chunks_Nil)
  next
    case False
    then show ?thesis
      using assms(1,2) by (simp add: batch_state_def batch_loop_eq s del: set_concat)
  qed
  show ?thesis
    using st f by (simp add: parse_documents_batch_def)
qed

theorem parse_documents_batch_isolation_witness:
  "parse_documents_batch \<lparr>batch_size = 2, max_workers = 4\<rparr> second_fails rev
     [''a.pdf'', ''b.pdf'', ''c.pdf''] =
   Inr (\<lambda>p. if p \<in> set [''a.pdf'', ''b.pdf'', ''c.pdf'']
             then (case second_fails p of Inr c \<Rightarrow> Some c | Inl e \<Rightarrow> None) else None)"
  using parse_documents_batch_isolation
    [of "\<lparr>batch_size = 2, max_workers = 4\<rparr>" rev second_fails "[''a.pdf'', ''b.pdf'', ''c.pdf'']"]
  by simp

text \<open>
  Claim C5 as stated asks for the failed file and its cause in the value returned. With
  three files of which the second fails, the value returned is the mapping of the first
  and the third, the same value as for a run on these two alone.
\<close>

theorem parse_documents_batch_counterexample:
  "batch_state \<lparr>batch_size = 2, max_workers = 4\<rparr> second_fails id
     [''a.pdf'', ''b.pdf'', ''c.pdf''] =
     Inr ([''a.pdf'' \<mapsto> [PStr ''a.pdf''], ''c.pdf'' \<mapsto> [PStr ''c.pdf'']], [''b.pdf''])
   \<and> parse_documents_batch \<lparr>batch_size = 2, max_workers = 4\<rparr> second_fails id
       [''a.pdf'', ''b.pdf'', ''c.pdf''] =
     Inr [''a.pdf'' \<mapsto> [PStr ''a.pdf''], ''c.pdf'' \<mapsto> [PStr ''c.pdf'']]
   \<and> parse_documents_batch \<lparr>batch_size = 2, max_workers = 4\<rparr> second_fails id
       [''a.pdf'', ''c.pdf''] =
     Inr [''a.pdf'' \<mapsto> [PStr ''a.pdf''], ''c.pdf'' \<mapsto> [PStr ''c.pdf'']]"
  by (simp add: parse_documents_batch_def batch_state_def chunks.simps second_fails_def)


section \<open>The heap after a run\<close>

lemma dict_set_twice: "dict_set k v (dict_set k w d) = dict_set k v d"
  by (induction d) auto

lemma in_refs: "a \<in> set (refs blocks) \<longleftrightarrow> Ref a \<in> set blocks"
proof (induction blocks)
  case Nil
  show ?case by simp
next
  case (Cons x xs)
  then show ?case by (cases x) auto
qed

lemma classify_heap:
  assumes "list_all (\<lambda>a. a < length h) (refs blocks)"
  shows "length (snd (snd (classify h i blocks))) = length h
       \<and> (\<forall>j a. j < length blocks \<longrightarrow> blocks ! j = Ref a \<longrightarrow> Ref a \<notin> set (drop (Suc j) blocks) \<longrightarrow>
            snd (snd (classify h i blocks)) ! a
              = dict_set (PStr ''block_index'') (PInt (int (i + j))) (h ! a))
       \<and> (\<forall>a. a \<notin> set (refs blocks) \<longrightarrow> snd (snd (classify h i blocks)) ! a = h ! a)"
  using assms
proof (induction blocks arbitrary: h i)
  case Nil
  then show ?case by simp
next
  case (Cons x xs)
  show ?case
  proof (cases x)
    case (Val v)
    have ih: "length (snd (snd (classify h (Suc i) xs))) = length h
       \<and> (\<forall>j a. j < length xs \<longrightarrow> xs ! j = Ref a \<longrightarrow> Ref a \<notin> set (drop (Suc j) xs) \<longrightarrow>
            snd (snd (classify h (Suc i) xs)) ! a
              = dict_set (PStr ''block_index'') (PInt (int (Suc i + j))) (h ! a))
       \<and> (\<forall>a. a \<notin> set (refs xs) \<longrightarrow> snd (snd (classify h (Suc i) xs)) ! a = h ! a)"
      using Cons.prems Val by (intro Cons.IH) simp_all
    show ?thesis
      using ih Val by (auto simp: nth_Cons algebra_simps split: nat.splits)
  next
    case (Ref a)
    let ?h1 = "h[a := dict_set (PStr ''block_index'') (PInt (int i)) (h ! a)]"
    have a: "a < length h"
      using Cons.prems Ref by simp
    have ih: "length (snd (snd (classify ?h1 (Suc i) xs))) = length ?h1
       \<and> (\<forall>j b. j < length xs \<longrightarrow> xs ! j = Ref b \<longrightarrow> Ref b \<notin> set (drop (Suc j) xs) \<longrightarrow>
            snd (snd (classify ?h1 (Suc i) xs)) ! b
              = dict_set (PStr ''block_index'') (PInt (int (Suc i + j))) (?h1 ! b))
       \<and> (\<forall>b. b \<notin> set (refs xs) \<longrightarrow> snd (snd (classify ?h1 (Suc i) xs)) ! b = ?h1 ! b)"
      using Cons.prems Ref by (intro Cons.IH) simp_all
    have step: "snd (snd (classify h i (x # xs))) = snd (snd (classify ?h1 (Suc i) xs))"
      using Ref by (auto split: prod.splits if_splits)
    show ?thesis
      unfolding step
    proof (intro conjI allI impI)
      show "length (snd (snd (classify ?h1 (Suc i) xs))) = length h"
        using ih by simp
    next
      fix j b
      assume j: "j < length (x # xs)" and b: "(x # xs) ! j = Ref b"
        and last: "Ref b \<notin> set (drop (Suc j) (x # xs))"
      show "snd (snd (classify ?h1 (Suc i) xs)) ! b
              = dict_set (PStr ''block_index'') (PInt (int (i + j))) (h ! b)"
      proof (cases j)
        case 0
        then have "b = a" "b \<notin> set (refs xs)"
          using b Ref last by (simp_all add: in_refs)
        then show ?thesis using ih a 0 by simp
      next
        case (Suc k)
        then have k: "k < length xs" "xs ! k = Ref b" "Ref b \<notin> set (drop (Suc k) xs)"
          using j b last by simp_all
        then have "snd (snd (classify ?h1 (Suc i) xs)) ! b
              = dict_set (PStr ''block_index'') (PInt (int (Suc i + k))) (?h1 ! b)"
          using ih by blast
        also have "\<dots> = dict_set (PStr ''block_index'') (PInt (int (Suc i + k))) (h ! b)"
          using a by (cases "b = a") (simp_all add: dict_set_twice)
        finally show ?thesis using Suc by (simp add: algebra_simps)
      qed
    next
      fix b
      assume "b \<notin> set (refs (x # xs))"
      then have "b \<noteq> a" "b \<notin> set (refs xs)" using Ref by simp_all
      then show "snd (snd (classify ?h1 (Suc i) xs)) ! b = h ! b"
        using ih by simp
    qed
  qed
qed

lemma absorb_heap:
  assumes "n \<le> cur" and "cur < length h"
  shows "length (snd (absorb h cur b text)) = length h
       \<and> (\<forall>a < n. snd (absorb h cur b text) ! a = h ! a)"
  using assms
  by (auto simp: absorb_def Let_def split: option.splits pyval.splits)

lemma merge_loop_heap:
  assumes "n \<le> length h" and "case cur of None \<Rightarrow> True | Some c \<Rightarrow> n \<le> c \<and> c < length h"
  shows "length h \<le> length (snd (merge_loop h blocks cur merged))
       \<and> (\<forall>a < n. snd (merge_loop h blocks cur merged) ! a = h ! a)"
  using assms
proof (induction blocks arbitrary: h cur merged)
  case Nil
  then show ?case by simp
next
  case (Cons b bs)
  show ?case
  proof (cases "py_strip (dict_get (h ! b) ''text'' (PStr []))")
    case (Inl e)
    then show ?thesis by simp
  next
    case (Inr t)
    show ?thesis
    proof (cases "length t < 200 \<and> cur \<noteq> None")
      case True
      then obtain c where c: "cur = Some c" by auto
      then have cb: "n \<le> c" "c < length h" using Cons.prems by simp_all
      obtain r h' where eq: "absorb h c b t = (r, h')"
        by (cases "absorb h c b t")
      have ab: "length h' = length h \<and> (\<forall>a < n. h' ! a = h ! a)"
        using absorb_heap [OF cb, of b t] eq by simp
      show ?thesis
      proof (cases r)
        case (Inl e)
        then show ?thesis
          using Inr True c eq ab by simp
      next
        case (Inr u)
        have "length h' \<le> length (snd (merge_loop h' bs cur merged))
           \<and> (\<forall>a < n. snd (merge_loop h' bs cur merged) ! a = h' ! a)"
          using Cons.prems ab c by (intro Cons.IH) simp_all
        then show ?thesis
          using \<open>py_strip (dict_get (h ! b) ''text'' (PStr [])) = Inr t\<close> True c eq ab Inr
          by simp
      qed
    next
      case False
      have "length (h @ [h ! b]) \<le> length (snd (merge_loop (h @ [h ! b]) bs (Some (length h)) (flush cur merged)))
           \<and> (\<forall>a < n. snd (merge_loop (h @ [h ! b]) bs (Some (length h)) (flush cur merged)) ! a = (h @ [h ! b]) ! a)"
        using Cons.prems by (intro Cons.IH) simp_all
      then show ?thesis
        using Inr False Cons.prems(1) by (auto simp: copy_block_def nth_append)
    qed
  qed
qed

lemma extract_entities_heap:
  "fst (snd (extract_entities_from_content_list ev h content_list rel reqs)) =
     (if fst (classify h 0 content_list) \<noteq> []
      then snd (merge_text_blocks (snd (snd (classify h 0 content_list))) (fst (classify h 0 content_list)))
      else snd (snd (classify h 0 content_list)))"
  by (simp add: extract_entities_from_content_list_def extract_text_entities_def
      split: prod.splits sum.splits)

text \<open>
  Claim C9, as amended: \<^verbatim>\<open>EntityExtractor.extract_entities_from_content_list\<close> writes to
  the dictionaries of the caller's content list in place. After every call, also one that
  raises, each dictionary object of the list is the old one with the key
  \<^verbatim>\<open>block_index\<close> set to the last position at which the object occurs in the list; this
  is its position when the dictionaries of the list are distinct objects. Every other key
  keeps its value and its place. The merger writes only to copies, which are new objects
  behind the old ones; no other object changes; and the list itself is only read, so its
  length and the order of its elements stay.
\<close>

theorem block_index_in_place:
  assumes "list_all (\<lambda>a. a < length h) (refs content_list)"
  shows "length h \<le> length (fst (snd (extract_entities_from_content_list ev h content_list rel reqs)))
       \<and> (\<forall>i a. i < length content_list \<longrightarrow> content_list ! i = Ref a \<longrightarrow>
                 Ref a \<notin> set (drop (Suc i) content_list) \<longrightarrow>
            fst (snd (extract_entities_from_content_list ev h content_list rel reqs)) ! a
              = dict_set (PStr ''block_index'') (PInt (int i)) (h ! a))
       \<and> (distinct (refs content_list) \<longrightarrow>
            (\<forall>i a. i < length content_list \<longrightarrow> content_list ! i = Ref a \<longrightarrow>
               fst (snd (extract_entities_from_content_list ev h content_list rel reqs)) ! a
                 = dict_set (PStr ''block_index'') (PInt (int i)) (h ! a)))
       \<and> (\<forall>a < length h. a \<notin> set (refs content_list) \<longrightarrow>
            fst (snd (extract_entities_from_content_list ev h content_list rel reqs)) ! a = h ! a)"
proof -
  let ?h1 = "snd (snd (classify h 0 content_list))"
  let ?h2 = "fst (snd (extract_entities_from_content_list ev h content_list rel reqs))"
  note c = classify_heap [OF assms, of 0]
  have m: "length ?h1 \<le> length ?h2 \<and> (\<forall>a < length ?h1. ?h2 ! a = ?h1 ! a)"
    using merge_loop_heap [of "length ?h1" ?h1 None "fst (classify h 0 content_list)" "[]"]
    by (simp add: extract_entities_heap merge_text_blocks_def)
  have in_range: "a < length h" if "i < length content_list" "content_list ! i = Ref a" for i a
  proof -
    have "Ref a \<in> set content_list"
      using that by (metis nth_mem)
    then show ?thesis using assms by (simp add: list_all_iff in_refs)
  qed
  have last: "Ref a \<notin> set (drop (Suc i) content_list)"
    if "distinct (refs content_list)" "i < length content_list" "content_list ! i = Ref a" for i a
    using that
  proof (induction content_list arbitrary: i)
    case Nil
    then show ?case by simp
  next
    case (Cons y ys)
    show ?case
    proof (cases i)
      case 0
      then show ?thesis using Cons.prems by (simp add: in_refs [symmetric])
    next
      case (Suc k)
      have "distinct (refs ys)" using Cons.prems(1) by (cases y) simp_all
      then show ?thesis using Cons.IH [of k] Cons.prems Suc by simp
    qed
  qed
  have one: "?h2 ! a = dict_set (PStr ''block_index'') (PInt (int i)) (h ! a)"
    if "i < length content_list" "content_list ! i = Ref a"
      "Ref a \<notin> set (drop (Suc i) content_list)" for i a
    using c m in_range [OF that(1,2)] that by auto
  show ?thesis
    using c m one last by auto
qed

theorem block_index_in_place_witness:
  "list_all (\<lambda>a. a < length [[(PStr ''type'', PStr ''text''), (PStr ''text'', PStr ''some text'')],
                                  [(PStr ''type'', PStr ''table'')]]) (refs [Ref 0, Val PNone, Ref 1])
   \<and> fst (snd (extract_entities_from_content_list (fixed_answer ''{}'')
        [[(PStr ''type'', PStr ''text''), (PStr ''text'', PStr ''some text'')],
         [(PStr ''type'', PStr ''table'')]]
        [Ref 0, Val PNone, Ref 1] True [])) ! 1
     = [(PStr ''type'', PStr ''table''), (PStr ''block_index'', PInt 2)]"
proof -
  have r: "list_all (\<lambda>a. a < length [[(PStr ''type'', PStr ''text''), (PStr ''text'', PStr ''some text'')],
                                  [(PStr ''type'', PStr ''table'')]]) (refs [Ref 0, Val PNone, Ref 1])"
    by simp
  have "\<forall>i a. i < length [Ref 0, Val PNone, Ref 1] \<longrightarrow> [Ref 0, Val PNone, Ref 1] ! i = Ref a \<longrightarrow>
      Ref a \<notin> set (drop (Suc i) [Ref 0, Val PNone, Ref 1]) \<longrightarrow>
      fst (snd (extract_entities_from_content_list (fixed_answer ''{}'')
        [[(PStr ''type'', PStr ''text''), (PStr ''text'', PStr ''some text'')],
         [(PStr ''type'', PStr ''table'')]]
        [Ref 0, Val PNone, Ref 1] True [])) ! a
      = dict_set (PStr ''block_index'') (PInt (int i))
          ([[(PStr ''type'', PStr ''text''), (PStr ''text'', PStr ''some text'')],
            [(PStr ''type'', PStr ''table'')]] ! a)"
    using block_index_in_place [OF r, of "fixed_answer ''{}''" True "[]"] by blast
  from this [rule_format, of 2 1] r show ?thesis
    by simp
qed

text \<open>
  Claim C9 as stated gives every dictionary element its position in the list. A list that
  holds the same dictionary object twice leaves the object with the index 1, which is not
  the position 0 of its first occurrence.
\<close>

theorem block_index_alias_counterexample:
  "dict_get
     (fst (snd (extract_entities_from_content_list (fixed_answer ''{}'')
        [[(PStr ''type'', PStr ''image'')]] [Ref 0, Ref 0] True [])) ! 0)
     ''block_index'' PNone = PInt 1
   \<and> [Ref 0, Ref 0] ! 0 = Ref 0 \<and> PInt 1 \<noteq> PInt 0"
  by code_simp

section \<open>Elements that are no dictionaries\<close>




lemma content_loop_skip:
  "\<not> is_dict v \<Longrightarrow> content_loop ev i (v # items) reqs = content_loop ev (Suc i) items reqs"
  by (cases v) simp_all


lemma content_statistics_skip:
  "\<not> is_dict v \<Longrightarrow> content_statistics (v # items) ct pg = content_statistics items ct pg"
  by (cases v) simp_all


lemma convert_skip:
  "\<not> is_dict v \<Longrightarrow> convert_to_lightrag_chunks md5_hex repr i (v # items) cks
     = convert_to_lightrag_chunks md5_hex repr (Suc i) items cks"
  by (cases v) simp_all


lemma classify_all_Val: "classify h i (map Val vs) = ([], [], h)"
  by (induction vs arbitrary: i) simp_all

lemma structure_info_all_Val: "structure_info repr h (take n (map Val vs)) = []"
proof (induction vs arbitrary: n)
  case Nil
  show ?case by simp
next
  case (Cons v vs)
  show ?case by (cases n) (simp_all add: Cons.IH)
qed

lemma content_loop_all_non_dict:
  "list_all (\<lambda>v. \<not> is_dict v) vs \<Longrightarrow> content_loop ev i vs reqs = (([], []), reqs)"
  by (induction vs arbitrary: i) (simp_all add: content_loop_skip)

lemma content_statistics_all_non_dict:
  "list_all (\<lambda>v. \<not> is_dict v) vs \<Longrightarrow> content_statistics vs ct pg = Inr (ct, pg)"
  by (induction vs) (simp_all add: content_statistics_skip)

lemma convert_all_non_dict:
  "list_all (\<lambda>v. \<not> is_dict v) vs \<Longrightarrow>
     convert_to_lightrag_chunks md5_hex repr i vs cks = Inr cks"
  by (induction vs arbitrary: i) (simp_all add: convert_skip)

section \<open>The source of an entity\<close>

text \<open>In \<^verbatim>\<open>RAGAnythingEntityExtractor\<close> an entity names the position of the block whose
  result it came from.\<close>

lemma annotate_sources:
  assumes "annotate ((''source_block'', v) # [(''source_page'', p), (''source_type'', t)]) xs = Inr es"
    and "e \<in> set es"
  shows "source_block e = v"
proof -
  from assms obtain ys where ys: "py_iter xs = Inr ys" "list_all is_dict ys"
    "es = map (set_keys [(''source_block'', v), (''source_page'', p), (''source_type'', t)]) ys"
    by (auto simp: annotate_def split: sum.splits if_splits)
  with assms(2) obtain y where y: "y \<in> set ys"
    "e = set_keys [(''source_block'', v), (''source_page'', p), (''source_type'', t)] y"
    by auto
  with ys(2) obtain d where "y = PDict d"
    by (cases y) (auto simp: list_all_iff)
  with y(2) show ?thesis
    by (simp add: source_block_def dict_get_dict_set)
qed

lemma collect_sources:
  assumes "e \<in> set (fst (collect item i r))"
  shows "source_block e = PInt (int i)"
  using assms
  by (auto simp: collect_def split: pyval.splits sum.splits dest: annotate_sources)

lemma content_loop_sources:
  assumes "e \<in> set (fst (fst (content_loop ev i items reqs)))"
  shows "\<exists>j d rq r. j < length items \<and> items ! j = PDict d \<and>
           source_block e = PInt (int (i + j)) \<and>
           fst (process_content ev d (i + j) rq) = Inr r \<and> e \<in> set (fst (collect d (i + j) r))"
  using assms
proof (induction items arbitrary: i reqs)
  case Nil
  then show ?case by simp
next
  case (Cons x xs)
  show ?case
  proof (cases "is_dict x")
    case False
    with Cons.prems have "e \<in> set (fst (fst (content_loop ev (Suc i) xs reqs)))"
      by (simp add: content_loop_skip)
    from Cons.IH [OF this] obtain j d rq r where
      "j < length xs" "xs ! j = PDict d" "source_block e = PInt (int (Suc i + j))"
      "fst (process_content ev d (Suc i + j) rq) = Inr r" "e \<in> set (fst (collect d (Suc i + j) r))"
      by blast
    then show ?thesis
      by (intro exI [of _ "Suc j"] exI [of _ d] exI [of _ rq] exI [of _ r]) simp
  next
    case True
    then obtain item where x: "x = PDict item" by (cases x) auto
    obtain result reqs1 where p: "process_content ev item i reqs = (result, reqs1)"
      by (cases "process_content ev item i reqs")
    consider (here) r where "result = Inr r" "e \<in> set (fst (collect item i r))"
      | (later) "e \<in> set (fst (fst (content_loop ev (Suc i) xs reqs1)))"
      using Cons.prems x p by (auto split: prod.splits sum.splits)
    then show ?thesis
    proof cases
      case here
      then show ?thesis
        using x p collect_sources [of e item i r]
        by (intro exI [of _ 0] exI [of _ item] exI [of _ reqs] exI [of _ r]) simp
    next
      case later
      from Cons.IH [OF this] obtain j d rq r where
        "j < length xs" "xs ! j = PDict d" "source_block e = PInt (int (Suc i + j))"
        "fst (process_content ev d (Suc i + j) rq) = Inr r" "e \<in> set (fst (collect d (Suc i + j) r))"
        by blast
      then show ?thesis
        by (intro exI [of _ "Suc j"] exI [of _ d] exI [of _ rq] exI [of _ r]) simp
    qed
  qed
qed

lemma process_content_short:
  assumes "short_text_block item"
  shows "process_content ev item i reqs = (Inr PNone, reqs)"
  using assms
  by (auto simp: short_text_block_def process_content_def process_text_content_def dict_get_def
      split: option.splits pyval.splits)

lemma collect_PNone: "collect item i PNone = ([], [])"
  by (simp add: collect_def)

lemma content_loop_short:
  assumes "short_text_block item"
  shows "content_loop ev i (xs @ PDict item # ys) reqs = content_loop ev i (xs @ PNone # ys) reqs"
proof (induction xs arbitrary: i reqs)
  case Nil
  show ?case
    using assms by (simp add: process_content_short collect_PNone split: prod.splits)
next
  case (Cons x xs)
  show ?case
  proof (cases "is_dict x")
    case True
    then obtain d where "x = PDict d" by (cases x) auto
    then show ?thesis by (simp add: Cons.IH split: prod.splits)
  next
    case False
    then show ?thesis by (simp add: content_loop_skip Cons.IH)
  qed
qed

lemma content_loop_no_source:
  assumes "p < length items" and "case items ! p of PDict d \<Rightarrow> short_text_block d | _ \<Rightarrow> True"
    and "e \<in> set (fst (fst (content_loop ev 0 items reqs)))"
  shows "source_block e \<noteq> PInt (int p)"
proof
  assume s: "source_block e = PInt (int p)"
  from content_loop_sources [OF assms(3)] obtain j d rq r where
    j: "j < length items" "items ! j = PDict d" "source_block e = PInt (int (0 + j))"
    "fst (process_content ev d (0 + j) rq) = Inr r" "e \<in> set (fst (collect d (0 + j) r))"
    by blast
  from s j(3) have "j = p" by simp
  with j(2) assms(2) have "short_text_block d" by simp
  then have "process_content ev d (0 + j) rq = (Inr PNone, rq)"
    by (rule process_content_short)
  with j(4) have "r = PNone" by simp
  with j(5) show False by (simp add: collect_PNone)
qed

lemma text_entities_loop_short:
  assumes "dict_get (h ! u) ''text'' (PStr []) = PStr t" and "length (strip t) < 10"
  shows "text_entities_loop ev h (u # us) reqs = text_entities_loop ev h us reqs"
  using assms by simp

lemma extract_text_entities_lone_short:
  assumes "dict_get (h ! a) ''text'' (PStr []) = PStr t" and "length (strip t) < 10"
  shows "extract_text_entities ev h [a] reqs = (Inr [], h @ [h ! a], reqs)"
  using assms
  by (simp add: extract_text_entities_def merge_text_blocks_def copy_block_def)

section \<open>Short text blocks\<close>

text \<open>
  Claim C8, as amended: in \<^verbatim>\<open>RAGAnythingEntityExtractor\<close> a text block whose trimmed
  text has fewer than ten characters is dropped before extraction: no request is issued
  for it, the run goes on as if the element were passed over, and no entity names it as
  its source. In \<^verbatim>\<open>EntityExtractor\<close> the test comes behind the merger and is made on
  the merged units: a unit whose trimmed text has fewer than ten characters is dropped
  without a request, and so is a short block that is the only text block.
\<close>

theorem short_text_blocks_dropped:
  assumes "short_text_block item"
  shows "process_content ev item i reqs = (Inr PNone, reqs)
       \<and> content_loop ev 0 (xs @ PDict item # ys) reqs = content_loop ev 0 (xs @ PNone # ys) reqs
       \<and> (\<forall>e \<in> set (entities (fst (rag_extract_entities_sync ev (xs @ PDict item # ys) reqs))).
            source_block e \<noteq> PInt (int (length xs)))
       \<and> (h ! u = item \<longrightarrow>
            text_entities_loop ev h (u # us) reqs = text_entities_loop ev h us reqs)
       \<and> (h ! u = item \<longrightarrow>
            extract_text_entities ev h [u] reqs = (Inr [], h @ [item], reqs))"
proof -
  from assms obtain t where t: "dict_get item ''text'' (PStr []) = PStr t" "length (strip t) < 10"
    by (auto simp: short_text_block_def dict_get_def split: option.splits pyval.splits)
  have src: "source_block e \<noteq> PInt (int (length xs))"
    if "e \<in> set (entities (fst (rag_extract_entities_sync ev (xs @ PDict item # ys) reqs)))" for e
  proof -
    have "e \<in> set (fst (fst (content_loop ev 0 (xs @ PDict item # ys) reqs)))"
      using that
      by (auto simp: rag_extract_entities_sync_def rag_extract_entities_from_content_list_def
          error_result_def split: prod.splits sum.splits)
    then show ?thesis
      using assms by (intro content_loop_no_source [of "length xs" "xs @ PDict item # ys"]) simp_all
  qed
  have l: "text_entities_loop ev h (u # us) reqs = text_entities_loop ev h us reqs" if "h ! u = item"
    using that t by (intro text_entities_loop_short [of h u t]) simp_all
  have m: "extract_text_entities ev h [u] reqs = (Inr [], h @ [item], reqs)" if "h ! u = item"
    using that t extract_text_entities_lone_short [of h u t ev reqs] by simp
  from process_content_short [OF assms] content_loop_short [OF assms] src l m
  show ?thesis by blast
qed

theorem short_text_blocks_dropped_witness:
  "short_text_block [(PStr ''type'', PStr ''text''), (PStr ''text'', PStr '' short '')]
   \<and> process_content (fixed_answer ''{}'')
        [(PStr ''type'', PStr ''text''), (PStr ''text'', PStr '' short '')] 0 []
      = (Inr PNone, [])
   \<and> extract_text_entities (fixed_answer ''{}'')
        [[(PStr ''type'', PStr ''text''), (PStr ''text'', PStr '' short '')]] [0] []
      = (Inr [], [[(PStr ''type'', PStr ''text''), (PStr ''text'', PStr '' short '')],
                  [(PStr ''type'', PStr ''text''), (PStr ''text'', PStr '' short '')]], [])"
proof -
  have s: "short_text_block [(PStr ''type'', PStr ''text''), (PStr ''text'', PStr '' short '')]"
    by (simp add: short_text_block_def strip_def isspace_def)
  show ?thesis
    using s short_text_blocks_dropped [OF s, of "fixed_answer ''{}''" 0 "[]" _ _
        "[[(PStr ''type'', PStr ''text''), (PStr ''text'', PStr '' short '')]]" 0]
    by simp
qed

text \<open>
  Claim C8 as stated fails in \<^verbatim>\<open>EntityExtractor\<close>: a block of five characters in
  front of another text block is the start of their unit, its text is sent with the
  request for the unit, and the entity found names block 0, the short block, as source.
\<close>

theorem short_text_block_counterexample:
  "short_text_block [(PStr ''type'', PStr ''text''), (PStr ''text'', PStr ''short'')]
   \<and> map_sum id entities
       (fst (extract_entities_from_content_list (fixed_answer ''{\"entities\":[{\"name\":\"x\"}]}'')
          [[(PStr ''type'', PStr ''text''), (PStr ''text'', PStr ''short'')],
           [(PStr ''type'', PStr ''text''), (PStr ''text'', PStr ''another short text'')]]
          [Ref 0, Ref 1] True []))
     = Inr [PDict [(PStr ''name'', PStr ''x''), (PStr ''source_block'', PInt 0),
                   (PStr ''source_page'', PInt 0), (PStr ''source_type'', PStr ''text'')]]
   \<and> hd (snd (snd (extract_entities_from_content_list
          (fixed_answer ''{\"entities\":[{\"name\":\"x\"}]}'')
          [[(PStr ''type'', PStr ''text''), (PStr ''text'', PStr ''short'')],
           [(PStr ''type'', PStr ''text''), (PStr ''text'', PStr ''another short text'')]]
          [Ref 0, Ref 1] True [])))
     = TextEntityExtraction ''short\<newline>another short text''"
  by code_simp

section \<open>Skipping what is no dictionary\<close>












section \<open>The extractors compared\<close>

lemma alloc_non_dict: "list_all (\<lambda>v. \<not> is_dict v) vs \<Longrightarrow> alloc h vs = (map Val vs, h)"
proof (induction vs)
  case Nil
  then show ?case by simp
next
  case (Cons v vs)
  then show ?case by (cases v) simp_all
qed

text \<open>
  Claim C7, as amended: \<^verbatim>\<open>EntityExtractor\<close> and \<^verbatim>\<open>RAGAnythingEntityExtractor\<close> have
  the same entry point and result layout, and return the same entities and relationships,
  none, for a content list without dictionaries; they are no equivalent implementations
  (their requests, document analyses and statistics differ, and so do their entities as
  soon as a block is processed).
\<close>

theorem extractors_agree_without_dictionaries:
  assumes "list_all (\<lambda>v. \<not> is_dict v) vs"
  shows "alloc h vs = (map Val vs, h)
       \<and> extract_entities_from_content_list ev h (map Val vs) extract_relations reqs
           = (Inr \<lparr>entities = [], relationships = [],
                   document_analysis = fst (analyze_document_structure ev h [] reqs),
                   statistics = [(PStr ''total_entities'', PInt 0),
                                 (PStr ''total_relationships'', PInt 0),
                                 (PStr ''text_blocks_processed'', PInt 0),
                                 (PStr ''table_blocks_processed'', PInt 0)]\<rparr>,
              h, reqs @ [DocumentStructureAnalysis []])
       \<and> rag_extract_entities_from_content_list ev vs extract_relations reqs
           = (Inr \<lparr>entities = [], relationships = [],
                   document_analysis = projr (document_structure []),
                   statistics = [(PStr ''total_entities'', PInt 0),
                                 (PStr ''total_relationships'', PInt 0),
                                 (PStr ''content_blocks_processed'', PInt (int (length vs))),
                                 (PStr ''processing_method'', PStr ''raganything_style'')]\<rparr>,
              reqs)"
proof -
  have ee: "extract_entities_from_content_list ev h (map Val vs) extract_relations reqs
           = (Inr \<lparr>entities = [], relationships = [],
                   document_analysis = fst (analyze_document_structure ev h [] reqs),
                   statistics = [(PStr ''total_entities'', PInt 0),
                                 (PStr ''total_relationships'', PInt 0),
                                 (PStr ''text_blocks_processed'', PInt 0),
                                 (PStr ''table_blocks_processed'', PInt 0)]\<rparr>,
              h, reqs @ [DocumentStructureAnalysis []])"
    by (simp add: extract_entities_from_content_list_def analyze_document_structure_def
        call_llm_for_extraction_def classify_all_Val structure_info_all_Val
        split: prod.splits option.splits)
  have rag: "rag_extract_entities_from_content_list ev vs extract_relations reqs
           = (Inr \<lparr>entities = [], relationships = [],
                   document_analysis = projr (document_structure []),
                   statistics = [(PStr ''total_entities'', PInt 0),
                                 (PStr ''total_relationships'', PInt 0),
                                 (PStr ''content_blocks_processed'', PInt (int (length vs))),
                                 (PStr ''processing_method'', PStr ''raganything_style'')]\<rparr>,
              reqs)"
    using assms
    by (simp add: rag_extract_entities_from_content_list_def content_loop_all_non_dict
        document_structure_def content_statistics_all_non_dict)
  from alloc_non_dict [OF assms] ee rag show ?thesis by blast
qed

theorem extractors_agree_without_dictionaries_witness:
  "rag_extract_entities_from_content_list (fixed_answer ''{}'') [PNone, PStr ''x''] True []
     = (Inr \<lparr>entities = [], relationships = [],
             document_analysis = projr (document_structure []),
             statistics = [(PStr ''total_entities'', PInt 0),
                           (PStr ''total_relationships'', PInt 0),
                           (PStr ''content_blocks_processed'', PInt 2),
                           (PStr ''processing_method'', PStr ''raganything_style'')]\<rparr>, [])
   \<and> fst (extract_entities_from_content_list (fixed_answer ''{}'') [] (map Val [PNone, PStr ''x''])
        True [])
     = Inr \<lparr>entities = [], relationships = [],
             document_analysis = fst (analyze_document_structure (fixed_answer ''{}'') [] [] []),
             statistics = [(PStr ''total_entities'', PInt 0),
                           (PStr ''total_relationships'', PInt 0),
                           (PStr ''text_blocks_processed'', PInt 0),
                           (PStr ''table_blocks_processed'', PInt 0)]\<rparr>"
  using extractors_agree_without_dictionaries
    [of "[PNone, PStr ''x'']" "[]" "fixed_answer ''{}''" True "[]"]
  by simp

text \<open>
  Claim C7 as stated has the implementations return equivalent results for every content
  list and every behaviour of the service. For one image block and a service that always
  answers \<^verbatim>\<open>{"entity_info":{}}\<close>, \<^verbatim>\<open>EntityExtractor\<close> (which processes text and table
  blocks only) returns no entity and \<^verbatim>\<open>RAGAnythingEntityExtractor\<close> returns one.
\<close>

theorem extractors_differ_counterexample:
  "alloc [] [PDict [(PStr ''type'', PStr ''image'')]] = ([Ref 0], [[(PStr ''type'', PStr ''image'')]])
   \<and> map_sum id entities
       (fst (extract_entities_from_content_list (fixed_answer ''{\"entity_info\":{}}'')
          [[(PStr ''type'', PStr ''image'')]] [Ref 0] True [])) = Inr []
   \<and> map_sum id entities
       (fst (rag_extract_entities_from_content_list (fixed_answer ''{\"entity_info\":{}}'')
          [PDict [(PStr ''type'', PStr ''image'')]] True []))
     = Inr [PDict [(PStr ''name'', PStr (''Image_0_'' @ unnamed_image)),
                   (PStr ''type'', PStr ''image''),
                   (PStr ''description'', PStr []),
                   (PStr ''summary'', PStr []),
                   (PStr ''relevance_score'', PFloat 1),
                   (PStr ''source_block'', PInt 0),
                   (PStr ''source_page'', PInt 0),
                   (PStr ''source_type'', PStr ''image'')]]"
  by code_simp

end
